theory Spec2Isabelle
  imports Main "HOL-Library.Sublist"
begin

section \<open>JavaScript strings\<close>

text \<open>
  A JavaScript string is modelled as a \<^typ>\<open>string\<close>, one \<^typ>\<open>char\<close> for each
  code unit, over the code units U+0000 to U+00FF. \<open>length\<close> is the string's
  \<open>.length\<close>, \<open>take n\<close> is \<open>.substring(0, n)\<close>, and \<open>sublist w t\<close> is
  \<open>t.includes(w)\<close>.
\<close>

definition isWhiteSpace :: "char \<Rightarrow> bool" where
  \<comment> \<open>WhiteSpace and LineTerminator of ECMAScript below U+0100: TAB, LF, VT, FF, CR, SP, NBSP.\<close>
  "isWhiteSpace c = (of_char c \<in> {9, 10, 11, 12, 13, 32, 160 :: nat})"

definition trim :: "string \<Rightarrow> string" where
  \<comment> \<open>\<open>String.prototype.trim\<close>\<close>
  "trim s = rev (dropWhile isWhiteSpace (rev (dropWhile isWhiteSpace s)))"

definition toLowerChar :: "char \<Rightarrow> char" where
  \<comment> \<open>A to Z, and the Latin-1 capitals U+00C0 to U+00DE without the multiplication sign.\<close>
  "toLowerChar c =
     (let n = (of_char c :: nat)
      in if (65 \<le> n \<and> n \<le> 90) \<or> (192 \<le> n \<and> n \<le> 214) \<or> (216 \<le> n \<and> n \<le> 222)
         then char_of (n + 32) else c)"

definition toLowerCase :: "string \<Rightarrow> string" where
  \<comment> \<open>\<open>String.prototype.toLowerCase\<close>\<close>
  "toLowerCase s = map toLowerChar s"

fun split :: "string \<Rightarrow> string list" where
  \<comment> \<open>\<open>s.split(' ')\<close>: a cut at every single space. The result is never the empty array,
      so the alternative for \<open>[]\<close> below is never taken.\<close>
  "split [] = [[]]"
| "split (c # cs) =
     (if c = CHR '' '' then [] # split cs
      else (case split cs of [] \<Rightarrow> [[c]] | w # ws \<Rightarrow> (c # w) # ws))"

definition startsWith :: "string \<Rightarrow> string \<Rightarrow> bool" where
  "startsWith s p = prefix p s"

fun join :: "string list \<Rightarrow> string" where
  \<comment> \<open>\<open>xs.join(', ')\<close>\<close>
  "join [] = []"
| "join [x] = x"
| "join (x # y # ys) = x @ '', '' @ join (y # ys)"

definition digit :: "nat \<Rightarrow> char" where
  "digit d = char_of (48 + d)"

fun show_nat :: "nat \<Rightarrow> string" where
  \<comment> \<open>the decimal numeral a template literal prints for a non-negative integer\<close>
  "show_nat n = (if n < 10 then [digit n] else show_nat (n div 10) @ [digit (n mod 10)])"

declare show_nat.simps [simp del]

definition show_int :: "int \<Rightarrow> string" where
  "show_int i = (if i < 0 then CHR ''-'' # show_nat (nat (- i)) else show_nat (nat i))"

definition isDigit :: "char \<Rightarrow> bool" where
  "isDigit c = (48 \<le> (of_char c :: nat) \<and> (of_char c :: nat) \<le> 57)"

definition digits_value :: "string \<Rightarrow> int" where
  "digits_value ds = foldl (\<lambda>acc c. 10 * acc + (int (of_char c) - 48)) 0 ds"

definition parseInt :: "string \<Rightarrow> int option" where
  \<comment> \<open>\<open>parseInt(s, 10)\<close>; \<open>None\<close> is NaN. The value is exact (no rounding to a double).\<close>
  "parseInt s =
     (let s1 = dropWhile isWhiteSpace s;
          neg = (s1 \<noteq> [] \<and> hd s1 = CHR ''-'');
          s2 = (if s1 \<noteq> [] \<and> (hd s1 = CHR ''-'' \<or> hd s1 = CHR ''+'') then tl s1 else s1);
          ds = takeWhile isDigit s2
      in if ds = [] then None
         else Some (if neg then - digits_value ds else digits_value ds))"

definition truthy :: "string option \<Rightarrow> bool" where
  \<comment> \<open>truthiness of a value that is a string, \<open>null\<close> or \<open>undefined\<close>\<close>
  "truthy v = (case v of None \<Rightarrow> False | Some s \<Rightarrow> s \<noteq> [])"

section \<open>Sets kept as arrays\<close>

definition set_add :: "'a list \<Rightarrow> 'a \<Rightarrow> 'a list" where
  \<comment> \<open>\<open>Set.prototype.add\<close> on the insertion-ordered elements\<close>
  "set_add xs x = (if x \<in> set xs then xs else xs @ [x])"

definition new_Set :: "'a list \<Rightarrow> 'a list" where
  \<comment> \<open>\<open>new Set(array)\<close>, read back by \<open>Array.from\<close>: first occurrences, in order\<close>
  "new_Set xs = foldl set_add [] xs"

section \<open>State\<close>

record settings =
  admins :: "string list"
  password :: "string option"
  password_timeout_minutes :: "int option"
  blacklist_words :: "string list"
  blacklist_users :: "string list"

record verificationData =
  groupId :: string
  timeoutId :: nat

record timer =
  timer_delay :: int
  timer_group :: string
  timer_user :: string

datatype effect =
    ReplyMessage string string
  | PushMessage string string
  | KickGroupMember string string
  | ConsoleLog string
  | ConsoleError string

record state =
  db :: "string \<rightharpoonup> settings"
  pendingVerifications :: "string \<rightharpoonup> verificationData"
  timers :: "nat \<rightharpoonup> timer"
  nextTimeoutId :: nat
  out :: "effect list"

text \<open>
  \<open>db\<close> is the table \<open>group_settings\<close>, one row for a group id; an array column that is
  NULL is kept as the empty list \<open>getGroupSettings\<close> reads it as. \<open>timers\<close> holds the
  callbacks scheduled by \<open>setTimeout\<close> and not yet run or cleared, each with the
  variables its closure captured. \<open>out\<close> is everything the process has sent to the
  messaging platform or written to the console, oldest first.

  The outcome of the three platform calls whose failure the code handles is given by the
  environment; queries to the store, \<open>replyMessage\<close> and \<open>pushMessage\<close> are taken to
  succeed.
\<close>

record gateway =
  kick_ok :: "string \<Rightarrow> string \<Rightarrow> bool"
  groupMemberProfile :: "string \<Rightarrow> string \<Rightarrow> string option"
  profile :: "string \<Rightarrow> string option"

definition MAX_REPLY_LENGTH :: nat where
  "MAX_REPLY_LENGTH = 4800"

definition DEFAULT_PASSWORD_TIMEOUT_MINUTES :: int where
  "DEFAULT_PASSWORD_TIMEOUT_MINUTES = 2"

definition emit :: "effect \<Rightarrow> state \<Rightarrow> state" where
  "emit e s = s\<lparr>out := out s @ [e]\<rparr>"

section \<open>db.js\<close>

definition default_row :: settings where
  \<comment> \<open>the column defaults of \<open>CREATE TABLE group_settings\<close>\<close>
  "default_row = \<lparr>admins = [], password = None,
     password_timeout_minutes = Some DEFAULT_PASSWORD_TIMEOUT_MINUTES,
     blacklist_words = [], blacklist_users = []\<rparr>"

definition getGroupSettings :: "string \<Rightarrow> state \<Rightarrow> settings \<times> state" where
  "getGroupSettings g s =
     (case db s g of
        None \<Rightarrow>
          (default_row,
           (emit (ConsoleLog (''No settings found for group '' @ g @ ''. Creating new entry.'')) s)
             \<lparr>db := (db s)(g \<mapsto> default_row)\<rparr>)
      | Some r \<Rightarrow> (r, s))"

definition update_row :: "string \<Rightarrow> (settings \<Rightarrow> settings) \<Rightarrow> state \<Rightarrow> state" where
  \<comment> \<open>\<open>UPDATE group_settings SET ... WHERE group_id = g\<close>: no row, no change\<close>
  "update_row g f s =
     (case db s g of None \<Rightarrow> s | Some r \<Rightarrow> s\<lparr>db := (db s)(g \<mapsto> f r)\<rparr>)"

definition setPassword :: "string \<Rightarrow> string option \<Rightarrow> state \<Rightarrow> state" where
  "setPassword g p s = update_row g (\<lambda>r. r\<lparr>password := p\<rparr>) s"

definition setPasswordTimeout :: "string \<Rightarrow> int \<Rightarrow> state \<Rightarrow> state" where
  "setPasswordTimeout g minutes s =
     update_row g (\<lambda>r. r\<lparr>password_timeout_minutes := Some minutes\<rparr>) s"

definition isAdmin :: "string \<Rightarrow> string \<Rightarrow> state \<Rightarrow> bool \<times> state" where
  "isAdmin g u s =
     (case getGroupSettings g s of (st, s1) \<Rightarrow> (u \<in> set (admins st), s1))"

definition addAdmin :: "string \<Rightarrow> string \<Rightarrow> state \<Rightarrow> state" where
  "addAdmin g newAdminId s =
     (case getGroupSettings g s of (st, s1) \<Rightarrow>
        update_row g (\<lambda>r. r\<lparr>admins := set_add (new_Set (admins st)) newAdminId\<rparr>) s1)"

definition addBlacklistWords :: "string \<Rightarrow> string list \<Rightarrow> state \<Rightarrow> state" where
  "addBlacklistWords g ws s =
     (case getGroupSettings g s of (st, s1) \<Rightarrow>
        update_row g
          (\<lambda>r. r\<lparr>blacklist_words :=
             foldl (\<lambda>cur w. set_add cur (toLowerCase w)) (new_Set (blacklist_words st)) ws\<rparr>) s1)"

definition removeBlacklistWords :: "string \<Rightarrow> string list \<Rightarrow> state \<Rightarrow> state" where
  "removeBlacklistWords g ws s =
     (case getGroupSettings g s of (st, s1) \<Rightarrow>
        update_row g
          (\<lambda>r. r\<lparr>blacklist_words :=
             filter (\<lambda>w. w \<notin> set (map toLowerCase ws)) (blacklist_words st)\<rparr>) s1)"

definition isUserBlacklisted :: "string \<Rightarrow> string \<Rightarrow> state \<Rightarrow> bool \<times> state" where
  "isUserBlacklisted g u s =
     (case getGroupSettings g s of (st, s1) \<Rightarrow> (u \<in> set (blacklist_users st), s1))"

definition addUserToBlacklist :: "string \<Rightarrow> string \<Rightarrow> state \<Rightarrow> state" where
  "addUserToBlacklist g u s =
     (case getGroupSettings g s of (st, s1) \<Rightarrow>
        update_row g (\<lambda>r. r\<lparr>blacklist_users := set_add (new_Set (blacklist_users st)) u\<rparr>) s1)"

definition removeUserFromBlacklist :: "string \<Rightarrow> string \<Rightarrow> state \<Rightarrow> state" where
  "removeUserFromBlacklist g u s =
     (case getGroupSettings g s of (st, s1) \<Rightarrow>
        update_row g (\<lambda>r. r\<lparr>blacklist_users := filter (\<lambda>i. i \<noteq> u) (blacklist_users st)\<rparr>) s1)"

section \<open>index.js: events and platform calls\<close>

datatype message =
    TextMessage string "string list option"
  | OtherMessage string

text \<open>
  A message of type \<open>text\<close> carries its text and, when the platform sent one, the
  \<open>mention\<close> payload, kept as the user ids of its \<open>mentionees\<close> in order. Any other
  message carries only its type.
\<close>

datatype source =
    GroupSource string string
  | UserSource string

datatype event =
    Unfollow source
  | Message source message string
  | MemberJoined source "string list"
  | MemberLeft source "string list"
  | OtherEvent source

text \<open>
  \<open>GroupSource g u\<close> is a source of type \<open>group\<close> with its \<open>groupId\<close> and the
  \<open>userId\<close> of the sender (not read for the member events); \<open>UserSource u\<close> is any other
  source, a one-to-one chat or a room. \<open>OtherEvent\<close> stands for the event types the handler
  does not name (follow, join, leave, postback).
\<close>

fun source_userId :: "source \<Rightarrow> string" where
  "source_userId (GroupSource g u) = u"
| "source_userId (UserSource u) = u"

datatype channel = Reply string | Push string

definition replyMessage :: "string \<Rightarrow> string \<Rightarrow> state \<Rightarrow> state" where
  "replyMessage replyToken txt s = emit (ReplyMessage replyToken txt) s"

definition pushMessage :: "string \<Rightarrow> string \<Rightarrow> state \<Rightarrow> state" where
  "pushMessage u txt s = emit (PushMessage u txt) s"

fun respond :: "channel \<Rightarrow> string \<Rightarrow> state \<Rightarrow> state" where
  "respond (Reply replyToken) txt s = replyMessage replyToken txt s"
| "respond (Push u) txt s = pushMessage u txt s"

text \<open>
  The two versions of \<open>index.js\<close> have the same command handlers but for the call that
  answers: \<open>client.replyMessage(replyToken, ...)\<close> in the first and
  \<open>client.pushMessage(userId, ...)\<close> in the second. Each handler is one definition here,
  with the \<^typ>\<open>channel\<close> in the place of that parameter. The value a handler returns
  is not kept: only the webhook's JSON answer reads it.
\<close>

definition kickUser :: "gateway \<Rightarrow> string \<Rightarrow> string \<Rightarrow> string \<Rightarrow> state \<Rightarrow> state" where
  "kickUser env g u reason s =
     (let s1 = emit (ConsoleLog (''Kicking user '' @ u @ ''. Reason: '' @ reason)) s;
          s2 = emit (KickGroupMember g u) s1
      in if kick_ok env g u then s2
         else emit (ConsoleError (''Failed to kick user '' @ u @ '':'')) s2)"

definition mentionedUser :: "string list option \<Rightarrow> string option" where
  \<comment> \<open>\<open>mention ? mention.mentionees[0] : null\<close>\<close>
  "mentionedUser mention =
     (case mention of None \<Rightarrow> None
      | Some ms \<Rightarrow> (case ms of [] \<Rightarrow> None | m # _ \<Rightarrow> Some m))"

section \<open>index.js: command handlers\<close>

definition handleAddBlacklistWords :: "channel \<Rightarrow> string \<Rightarrow> string list \<Rightarrow> state \<Rightarrow> state" where
  "handleAddBlacklistWords ch g args s =
     (if length args = 0 then respond ch ''Usage: !addblacklist [word]...'' s
      else respond ch (''Added '' @ show_nat (length args) @ '' word(s) to blacklist.'')
             (addBlacklistWords g args s))"

definition handleRemoveBlacklistWords :: "channel \<Rightarrow> string \<Rightarrow> string list \<Rightarrow> state \<Rightarrow> state" where
  "handleRemoveBlacklistWords ch g args s =
     (if length args = 0 then respond ch ''Usage: !removeblacklist [word]...'' s
      else respond ch (''Removed '' @ show_nat (length args) @ '' word(s) from blacklist.'')
             (removeBlacklistWords g args s))"

definition handleSetPassword :: "channel \<Rightarrow> string \<Rightarrow> string list \<Rightarrow> state \<Rightarrow> state" where
  "handleSetPassword ch g args s =
     (if length args = 0 then respond ch ''Usage: !setpassword [new_password|off]'' s
      else let newPassword = hd args
           in if toLowerCase newPassword = ''off''
              then respond ch ''Password protection has been disabled.'' (setPassword g None s)
              else respond ch (''The group password has been set to: '' @ newPassword)
                     (setPassword g (Some newPassword) s))"

definition handleSetPasswordTimeout :: "channel \<Rightarrow> string \<Rightarrow> string list \<Rightarrow> state \<Rightarrow> state" where
  "handleSetPasswordTimeout ch g args s =
     (if length args = 0 then respond ch ''Usage: !setpasswordtimeout [minutes]'' s
      else case parseInt (hd args) of
             None \<Rightarrow> respond ch ''Please provide a valid number of minutes.'' s
           | Some minutes \<Rightarrow>
               if minutes \<le> 0 then respond ch ''Please provide a valid number of minutes.'' s
               else respond ch (''Password timeout has been set to '' @ show_int minutes @ '' minute(s).'')
                      (setPasswordTimeout g minutes s))"

definition handleSetAdmin :: "string \<Rightarrow> string \<Rightarrow> string \<Rightarrow> string list option \<Rightarrow> state \<Rightarrow> state" where
  \<comment> \<open>first version: every answer is a reply\<close>
  "handleSetAdmin g senderId replyToken mention s =
     (case getGroupSettings g s of (st, s1) \<Rightarrow>
        if length (admins st) = 0
        then replyMessage replyToken ''You are now the first admin.'' (addAdmin g senderId s1)
        else case isAdmin g senderId s1 of (a, s2) \<Rightarrow>
          if a then
            (case mentionedUser mention of
               None \<Rightarrow> replyMessage replyToken ''Usage: !setadmin @username'' s2
             | Some m \<Rightarrow>
                 (case isAdmin g m s2 of (b, s3) \<Rightarrow>
                    if b then replyMessage replyToken ''This user is already an admin.'' s3
                    else replyMessage replyToken ''New admin added.'' (addAdmin g m s3)))
          else s2)"

definition handleSetAdmin_push :: "string \<Rightarrow> string \<Rightarrow> string \<Rightarrow> string list option \<Rightarrow> state \<Rightarrow> state" where
  \<comment> \<open>second version: the first admin is answered by a reply, an admin by a push\<close>
  "handleSetAdmin_push g senderId replyToken mention s =
     (case getGroupSettings g s of (st, s1) \<Rightarrow>
        if length (admins st) = 0
        then replyMessage replyToken ''You are now the first admin.'' (addAdmin g senderId s1)
        else case isAdmin g senderId s1 of (a, s2) \<Rightarrow>
          if a then
            (case mentionedUser mention of
               None \<Rightarrow> pushMessage senderId ''Usage: !setadmin @username'' s2
             | Some m \<Rightarrow>
                 (case isAdmin g m s2 of (b, s3) \<Rightarrow>
                    if b then pushMessage senderId ''This user is already an admin.'' s3
                    else pushMessage senderId ''New admin added successfully.'' (addAdmin g m s3)))
          else s2)"

definition helpText :: string where
  "helpText = ''--- Admin Commands ---\<newline>!help\<newline>!status\<newline>!setpassword [pass|off]\<newline>!setpasswordtimeout [mins]\<newline>!showblacklistwords\<newline>!showblacklistusers\<newline>!setadmin @user\<newline>!addblacklist [word]...\<newline>!removeblacklist [word]...\<newline>!blacklistuser @user\<newline>!unblacklistuser @user''"

definition handleHelpCommand :: "channel \<Rightarrow> state \<Rightarrow> state" where
  "handleHelpCommand ch s = respond ch helpText s"

definition handleBlacklistUser :: "gateway \<Rightarrow> channel \<Rightarrow> string \<Rightarrow> string list option \<Rightarrow> state \<Rightarrow> state" where
  "handleBlacklistUser env ch g mention s =
     (case mentionedUser mention of
        None \<Rightarrow> respond ch ''Usage: !blacklistuser @username'' s
      | Some m \<Rightarrow>
          (case isAdmin g m s of (a, s1) \<Rightarrow>
             if a then respond ch ''You cannot blacklist an admin.'' s1
             else (let s2 = addUserToBlacklist g m s1
                   in (case groupMemberProfile env g m of
                         None \<Rightarrow>
                           respond ch ''User ID added to blacklist, but could not be removed from group (may have already left).''
                             (emit (ConsoleError ''Error in handleBlacklistUser:'') s2)
                       | Some displayName \<Rightarrow>
                           respond ch (displayName @ '' has been blacklisted and removed.'')
                             (kickUser env g m ''User has been blacklisted.'' s2)))))"

definition handleUnblacklistUser :: "gateway \<Rightarrow> channel \<Rightarrow> string \<Rightarrow> string list option \<Rightarrow> state \<Rightarrow> state" where
  "handleUnblacklistUser env ch g mention s =
     (case mentionedUser mention of
        None \<Rightarrow> respond ch ''Usage: !unblacklistuser @username'' s
      | Some m \<Rightarrow>
          (let s1 = removeUserFromBlacklist g m s
           in respond ch ((case profile env m of None \<Rightarrow> ''The user'' | Some displayName \<Rightarrow> displayName)
                            @ '' has been unblacklisted.'') s1))"

definition handleStatusCommand :: "channel \<Rightarrow> string \<Rightarrow> state \<Rightarrow> state" where
  "handleStatusCommand ch g s =
     (case getGroupSettings g s of (st, s1) \<Rightarrow>
        let timeout = (case password_timeout_minutes st of
                         None \<Rightarrow> DEFAULT_PASSWORD_TIMEOUT_MINUTES
                       | Some n \<Rightarrow> if n = 0 then DEFAULT_PASSWORD_TIMEOUT_MINUTES else n);
            passwordStatus = (if truthy (password st)
                              then ''Enabled (Timeout: '' @ show_int timeout @ ''m)''
                              else ''Disabled'')
        in respond ch
             (''--- Group Status Overview ---\<newline>''
              @ ''Password Protection: '' @ passwordStatus @ ''\<newline>''
              @ ''Admins: '' @ show_nat (length (admins st)) @ ''\<newline>''
              @ ''Blacklisted Words: '' @ show_nat (length (blacklist_words st)) @ ''\<newline>''
              @ ''Blacklisted Users: '' @ show_nat (length (blacklist_users st))) s1)"

definition handleShowBlacklistWords :: "channel \<Rightarrow> string \<Rightarrow> state \<Rightarrow> state" where
  "handleShowBlacklistWords ch g s =
     (case getGroupSettings g s of (st, s1) \<Rightarrow>
        let l0 = (if length (blacklist_words st) > 0 then join (blacklist_words st) else ''None'');
            l = (if length l0 > MAX_REPLY_LENGTH then take MAX_REPLY_LENGTH l0 @ ''...'' else l0)
        in respond ch
             (''--- Blacklisted Words ('' @ show_nat (length (blacklist_words st)) @ '') ---\<newline>''
              @ l) s1)"

definition displayNameOf :: "gateway \<Rightarrow> string \<Rightarrow> string" where
  \<comment> \<open>\<open>client.getProfile(id).catch(() => ({ displayName: `Unknown (ID: ${id})` }))\<close>\<close>
  "displayNameOf env i =
     (case profile env i of None \<Rightarrow> ''Unknown (ID: '' @ i @ '')'' | Some displayName \<Rightarrow> displayName)"

definition handleShowBlacklistUsers :: "gateway \<Rightarrow> channel \<Rightarrow> string \<Rightarrow> state \<Rightarrow> state" where
  "handleShowBlacklistUsers env ch g s =
     (case getGroupSettings g s of (st, s1) \<Rightarrow>
        let userListText =
              (if length (blacklist_users st) > 0
               then (let t0 = join (map (displayNameOf env) (blacklist_users st))
                     in if length t0 > MAX_REPLY_LENGTH then take MAX_REPLY_LENGTH t0 @ ''...'' else t0)
               else ''None'')
        in respond ch
             (''--- Blacklisted Users ('' @ show_nat (length (blacklist_users st)) @ '') ---\<newline>''
              @ userListText) s1)"

section \<open>index.js: the join flow and the moderation of messages\<close>

fun handleMemberJoined_loop :: "gateway \<Rightarrow> string \<Rightarrow> settings \<Rightarrow> string list \<Rightarrow> state \<Rightarrow> state" where
  \<comment> \<open>\<open>for (const member of members)\<close>, with the \<open>settings\<close> read before the loop\<close>
  "handleMemberJoined_loop env g st [] s = s"
| "handleMemberJoined_loop env g st (member # members) s =
     (case isUserBlacklisted g member s of (b, s1) \<Rightarrow>
        if b
        then handleMemberJoined_loop env g st members
               (kickUser env g member ''A blacklisted user tried to join.'' s1)
        else if truthy (password st)
        then (let timeoutMinutes =
                    (case password_timeout_minutes st of
                       None \<Rightarrow> DEFAULT_PASSWORD_TIMEOUT_MINUTES
                     | Some n \<Rightarrow> if n = 0 then DEFAULT_PASSWORD_TIMEOUT_MINUTES else n);
                  timeoutMs = timeoutMinutes * 60 * 1000;
                  tid = nextTimeoutId s1;
                  s2 = s1\<lparr>timers := (timers s1)(tid \<mapsto>
                            \<lparr>timer_delay = timeoutMs, timer_group = g, timer_user = member\<rparr>),
                          nextTimeoutId := tid + 1\<rparr>;
                  s3 = s2\<lparr>pendingVerifications := (pendingVerifications s2)(member \<mapsto>
                            \<lparr>groupId = g, timeoutId = tid\<rparr>)\<rparr>;
                  promptMessage = ''Welcome! This group requires a password. Please reply with the password within ''
                                  @ show_int timeoutMinutes @ '' minute(s) to stay in the group.''
              in handleMemberJoined_loop env g st members (pushMessage member promptMessage s3))
        else handleMemberJoined_loop env g st members s1)"

definition handleMemberJoined :: "gateway \<Rightarrow> string \<Rightarrow> string list \<Rightarrow> state \<Rightarrow> state" where
  "handleMemberJoined env g members s =
     (case getGroupSettings g s of (st, s1) \<Rightarrow> handleMemberJoined_loop env g st members s1)"

definition fireTimeout :: "gateway \<Rightarrow> nat \<Rightarrow> state \<Rightarrow> state" where
  \<comment> \<open>the callback given to \<open>setTimeout\<close> in \<open>handleMemberJoined\<close>, run when its delay has passed\<close>
  "fireTimeout env tid s =
     (case timers s tid of
        None \<Rightarrow> s
      | Some t \<Rightarrow>
          (let s1 = s\<lparr>timers := (timers s)(tid := None)\<rparr>
           in if pendingVerifications s1 (timer_user t) \<noteq> None
              then (let s2 = emit (ConsoleLog (''User '' @ timer_user t @ '' timed out. Kicking.'')) s1;
                        s3 = kickUser env (timer_group t) (timer_user t) ''Password verification timed out.'' s2
                    in s3\<lparr>pendingVerifications := (pendingVerifications s3)(timer_user t := None)\<rparr>)
              else s1))"

definition passwordMatches :: "message \<Rightarrow> string option \<Rightarrow> bool" where
  \<comment> \<open>\<open>message.type === 'text' && message.text === settings.password\<close>\<close>
  "passwordMatches m pw =
     (case m of TextMessage t mention \<Rightarrow> pw = Some t | OtherMessage ty \<Rightarrow> False)"

definition handlePasswordAttempt :: "gateway \<Rightarrow> string \<Rightarrow> message \<Rightarrow> string \<Rightarrow> state \<Rightarrow> state" where
  "handlePasswordAttempt env u m replyToken s =
     (case pendingVerifications s u of
        None \<Rightarrow> s
      | Some verification \<Rightarrow>
          (case getGroupSettings (groupId verification) s of (st, s1) \<Rightarrow>
             (let s2 = s1\<lparr>timers := (timers s1)(timeoutId verification := None)\<rparr>;
                  s3 = s2\<lparr>pendingVerifications := (pendingVerifications s2)(u := None)\<rparr>
              in if passwordMatches m (password st)
                 then replyMessage replyToken ''Password accepted. Welcome!'' s3
                 else kickUser env (groupId verification) u ''Incorrect password provided.''
                        (replyMessage replyToken ''Incorrect password.'' s3))))"

definition checkMessageForBlacklist :: "gateway \<Rightarrow> string \<Rightarrow> string \<Rightarrow> string \<Rightarrow> state \<Rightarrow> state" where
  "checkMessageForBlacklist env g u txt s =
     (case isAdmin g u s of (a, s1) \<Rightarrow>
        if a then s1
        else (case getGroupSettings g s1 of (st, s2) \<Rightarrow>
                (case find (\<lambda>w. sublist w (toLowerCase txt)) (blacklist_words st) of
                   None \<Rightarrow> s2
                 | Some foundWord \<Rightarrow>
                     if foundWord \<noteq> []
                     then kickUser env g u
                            (''Used blacklisted word: '' @ [CHR 0x27] @ foundWord @ [CHR 0x27]) s2
                     else s2)))"

section \<open>index.js: the dispatcher and the event handler\<close>

definition handleMessage :: "gateway \<Rightarrow> string \<Rightarrow> message \<Rightarrow> string \<Rightarrow> string \<Rightarrow> state \<Rightarrow> state" where
  \<comment> \<open>first version: commands are answered by a reply\<close>
  "handleMessage env g m u replyToken s =
     (case m of
        OtherMessage ty \<Rightarrow> s
      | TextMessage raw mention \<Rightarrow>
          (case isUserBlacklisted g u s of (b, s1) \<Rightarrow>
             if b then kickUser env g u ''User is on the blacklist.'' s1
             else (let txt = trim raw;
                       command = toLowerCase (hd (split txt));
                       args = tl (split txt)
                   in if startsWith command ''!''
                      then (if command = ''!setadmin'' then handleSetAdmin g u replyToken mention s1
                            else (case isAdmin g u s1 of (a, s2) \<Rightarrow>
                              if \<not> a then s2
                              else if command = ''!setpassword''
                                then handleSetPassword (Reply replyToken) g args s2
                              else if command = ''!setpasswordtimeout''
                                then handleSetPasswordTimeout (Reply replyToken) g args s2
                              else if command = ''!addblacklist''
                                then handleAddBlacklistWords (Reply replyToken) g args s2
                              else if command = ''!removeblacklist''
                                then handleRemoveBlacklistWords (Reply replyToken) g args s2
                              else if command = ''!blacklistuser''
                                then handleBlacklistUser env (Reply replyToken) g mention s2
                              else if command = ''!unblacklistuser''
                                then handleUnblacklistUser env (Reply replyToken) g mention s2
                              else if command = ''!status''
                                then handleStatusCommand (Reply replyToken) g s2
                              else if command = ''!showblacklistwords''
                                then handleShowBlacklistWords (Reply replyToken) g s2
                              else if command = ''!showblacklistusers''
                                then handleShowBlacklistUsers env (Reply replyToken) g s2
                              else if command = ''!help''
                                then handleHelpCommand (Reply replyToken) s2
                              else replyMessage replyToken
                                     (''Unknown command: '' @ command @ ''. Use !help to see all available commands.'') s2))
                      else checkMessageForBlacklist env g u txt s1)))"

definition handleMessage_push :: "gateway \<Rightarrow> string \<Rightarrow> message \<Rightarrow> string \<Rightarrow> string \<Rightarrow> state \<Rightarrow> state" where
  \<comment> \<open>second version: commands other than \<open>!setadmin\<close> are answered by a push to the sender\<close>
  "handleMessage_push env g m u replyToken s =
     (case m of
        OtherMessage ty \<Rightarrow> s
      | TextMessage raw mention \<Rightarrow>
          (case isUserBlacklisted g u s of (b, s1) \<Rightarrow>
             if b then kickUser env g u ''User is on the blacklist.'' s1
             else (let txt = trim raw;
                       command = toLowerCase (hd (split txt));
                       args = tl (split txt)
                   in if startsWith command ''!''
                      then (if command = ''!setadmin'' then handleSetAdmin_push g u replyToken mention s1
                            else (case isAdmin g u s1 of (a, s2) \<Rightarrow>
                              if \<not> a then s2
                              else if command = ''!setpassword''
                                then handleSetPassword (Push u) g args s2
                              else if command = ''!setpasswordtimeout''
                                then handleSetPasswordTimeout (Push u) g args s2
                              else if command = ''!addblacklist''
                                then handleAddBlacklistWords (Push u) g args s2
                              else if command = ''!removeblacklist''
                                then handleRemoveBlacklistWords (Push u) g args s2
                              else if command = ''!blacklistuser''
                                then handleBlacklistUser env (Push u) g mention s2
                              else if command = ''!unblacklistuser''
                                then handleUnblacklistUser env (Push u) g mention s2
                              else if command = ''!status''
                                then handleStatusCommand (Push u) g s2
                              else if command = ''!showblacklistwords''
                                then handleShowBlacklistWords (Push u) g s2
                              else if command = ''!showblacklistusers''
                                then handleShowBlacklistUsers env (Push u) g s2
                              else if command = ''!help''
                                then handleHelpCommand (Push u) s2
                              else pushMessage u
                                     (''Unknown command: '' @ command @ ''. Use !help to see all available commands.'') s2))
                      else checkMessageForBlacklist env g u txt s1)))"

definition handleEvent :: "gateway \<Rightarrow> event \<Rightarrow> state \<Rightarrow> state" where
  "handleEvent env e s =
     (case e of
        Unfollow src \<Rightarrow>
          s\<lparr>pendingVerifications := (pendingVerifications s)(source_userId src := None)\<rparr>
      | Message (UserSource u) m replyToken \<Rightarrow>
          if pendingVerifications s u \<noteq> None then handlePasswordAttempt env u m replyToken s else s
      | Message (GroupSource g u) m replyToken \<Rightarrow> handleMessage env g m u replyToken s
      | MemberJoined (UserSource u) members \<Rightarrow> s
      | MemberJoined (GroupSource g u) members \<Rightarrow> handleMemberJoined env g members s
      | MemberLeft (UserSource u) members \<Rightarrow> s
      | MemberLeft (GroupSource g u) members \<Rightarrow> emit (ConsoleLog (''Member left: '' @ join members)) s
      | OtherEvent src \<Rightarrow> s)"

definition handleEvent_push :: "gateway \<Rightarrow> event \<Rightarrow> state \<Rightarrow> state" where
  \<comment> \<open>the second version's \<open>handleEvent\<close>: the same text, calling its own \<open>handleMessage\<close>\<close>
  "handleEvent_push env e s =
     (case e of
        Unfollow src \<Rightarrow>
          s\<lparr>pendingVerifications := (pendingVerifications s)(source_userId src := None)\<rparr>
      | Message (UserSource u) m replyToken \<Rightarrow>
          if pendingVerifications s u \<noteq> None then handlePasswordAttempt env u m replyToken s else s
      | Message (GroupSource g u) m replyToken \<Rightarrow> handleMessage_push env g m u replyToken s
      | MemberJoined (UserSource u) members \<Rightarrow> s
      | MemberJoined (GroupSource g u) members \<Rightarrow> handleMemberJoined env g members s
      | MemberLeft (UserSource u) members \<Rightarrow> s
      | MemberLeft (GroupSource g u) members \<Rightarrow> emit (ConsoleLog (''Member left: '' @ join members)) s
      | OtherEvent src \<Rightarrow> s)"

section \<open>Runs and example inputs\<close>

fun run :: "gateway \<Rightarrow> event list \<Rightarrow> state \<Rightarrow> state" where
  \<comment> \<open>webhook deliveries of one event each, handled one after the other by the first version\<close>
  "run env [] s = s"
| "run env (e # es) s = run env es (handleEvent env e s)"

definition fresh :: state where
  \<comment> \<open>the process just started, over an empty table\<close>
  "fresh = \<lparr>db = Map.empty, pendingVerifications = Map.empty, timers = Map.empty,
            nextTimeoutId = 0, out = []\<rparr>"

definition platform_ok :: gateway where
  \<comment> \<open>every platform call succeeds; a user's display name is the user id\<close>
  "platform_ok = \<lparr>kick_ok = (\<lambda>g u. True), groupMemberProfile = (\<lambda>g u. Some u),
                   profile = (\<lambda>u. Some u)\<rparr>"

definition kick_fails :: gateway where
  \<comment> \<open>profile lookups succeed, \<open>kickGroupMember\<close> is rejected\<close>
  "kick_fails = \<lparr>kick_ok = (\<lambda>g u. False), groupMemberProfile = (\<lambda>g u. Some u),
                  profile = (\<lambda>u. Some u)\<rparr>"

definition group_text :: "string \<Rightarrow> string \<Rightarrow> event" where
  \<comment> \<open>a text without mention sent to the group \<open>G\<close>\<close>
  "group_text u raw = Message (GroupSource ''G'' u) (TextMessage raw None) ''token''"

definition moderated :: state where
  \<comment> \<open>the group \<open>G\<close>: \<open>A\<close> and \<open>Z\<close> are admins, \<open>B\<close> and \<open>Z\<close> are blacklisted\<close>
  "moderated =
     \<lparr>db = [''G'' \<mapsto> \<lparr>admins = [''A'', ''Z''], password = None,
                       password_timeout_minutes = Some 2,
                       blacklist_words = [], blacklist_users = [''B'', ''Z'']\<rparr>],
      pendingVerifications = Map.empty, timers = Map.empty, nextTimeoutId = 0, out = []\<rparr>"

definition awaiting :: state where
  \<comment> \<open>the group \<open>G\<close> with the password \<open>letmein\<close>, after \<open>U\<close> joined and was prompted\<close>
  "awaiting =
     \<lparr>db = [''G'' \<mapsto> \<lparr>admins = [''A''], password = Some ''letmein'',
                       password_timeout_minutes = Some 2,
                       blacklist_words = [], blacklist_users = []\<rparr>],
      pendingVerifications = [''U'' \<mapsto> \<lparr>groupId = ''G'', timeoutId = 0\<rparr>],
      timers = [0 \<mapsto> \<lparr>timer_delay = 120000, timer_group = ''G'', timer_user = ''U''\<rparr>],
      nextTimeoutId = 1, out = []\<rparr>"

definition long_words :: state where
  \<comment> \<open>the group \<open>G\<close> with two blacklisted words of 4000 characters each and no blacklisted user\<close>
  "long_words =
     \<lparr>db = [''G'' \<mapsto> \<lparr>admins = [''A''], password = None,
                       password_timeout_minutes = Some 2,
                       blacklist_words = [replicate 4000 (CHR ''a''), replicate 4000 (CHR ''b'')],
                       blacklist_users = []\<rparr>],
      pendingVerifications = Map.empty, timers = Map.empty, nextTimeoutId = 0, out = []\<rparr>"

definition long_users :: state where
  \<comment> \<open>the group \<open>G\<close> with two short blacklisted words and two blacklisted users whose ids
      have 4000 characters each\<close>
  "long_users =
     \<lparr>db = [''G'' \<mapsto> \<lparr>admins = [''A''], password = None,
                       password_timeout_minutes = Some 2,
                       blacklist_words = [''spam'', ''scam''],
                       blacklist_users = [replicate 4000 (CHR ''u''), replicate 4000 (CHR ''v'')]\<rparr>],
      pendingVerifications = Map.empty, timers = Map.empty, nextTimeoutId = 0, out = []\<rparr>"

definition profiles_fail :: gateway where
  \<comment> \<open>\<open>getProfile\<close> and \<open>getGroupMemberProfile\<close> are rejected, kicks succeed\<close>
  "profiles_fail = \<lparr>kick_ok = (\<lambda>g u. True), groupMemberProfile = (\<lambda>g u. None),
                     profile = (\<lambda>u. None)\<rparr>"

definition blacklisting :: "event list" where
  \<comment> \<open>\<open>A\<close> becomes the first admin of \<open>G\<close> and blacklists \<open>B\<close>\<close>
  "blacklisting =
     [group_text ''A'' ''!setadmin'',
      Message (GroupSource ''G'' ''A'') (TextMessage ''!blacklistuser @B'' (Some [''B''])) ''token'']"

section \<open>States the process can reach\<close>

inductive reachable :: "state \<Rightarrow> bool" where
  start: "reachable fresh"
| event: "reachable s \<Longrightarrow> reachable (handleEvent env e s)"
| event_push: "reachable s \<Longrightarrow> reachable (handleEvent_push env e s)"
| timeout: "reachable s \<Longrightarrow> reachable (fireTimeout env tid s)"

text \<open>
  The process starts over an empty table and then handles events and runs expired timers, one at
  a time, with whatever outcome the platform gives to its calls. Only the process writes to the
  table.
\<close>

definition admins_before_blacklist :: "state \<Rightarrow> bool" where
  \<comment> \<open>no group has a blacklisted user before it has an admin\<close>
  "admins_before_blacklist s =
     (\<forall>g r. db s g = Some r \<longrightarrow> admins r = [] \<longrightarrow> blacklist_users r = [])"

section \<open>Facts about the store and the handlers\<close>

lemma getGroupSettings_Some [simp]: "db s g = Some r \<Longrightarrow> getGroupSettings g s = (r, s)"
  by (simp add: getGroupSettings_def)

lemma isAdmin_Some [simp]: "db s g = Some r \<Longrightarrow> isAdmin g u s = (u \<in> set (admins r), s)"
  by (simp add: isAdmin_def)

lemma isUserBlacklisted_Some [simp]:
  "db s g = Some r \<Longrightarrow> isUserBlacklisted g u s = (u \<in> set (blacklist_users r), s)"
  by (simp add: isUserBlacklisted_def)

lemma non_text_ignored:
  "handleMessage env g (OtherMessage ty) u tok s = s
   \<and> handleMessage_push env g (OtherMessage ty) u tok s = s
   \<and> handleEvent env (Message (GroupSource g u) (OtherMessage ty) tok) s = s
   \<and> handleEvent_push env (Message (GroupSource g u) (OtherMessage ty) tok) s = s"
  by (simp add: handleMessage_def handleMessage_push_def handleEvent_def handleEvent_push_def)

lemma kickUser_out:
  "kickUser env g u reason s =
     s\<lparr>out := out s @ [ConsoleLog (''Kicking user '' @ u @ ''. Reason: '' @ reason), KickGroupMember g u]
                   @ (if kick_ok env g u then [] else [ConsoleError (''Failed to kick user '' @ u @ '':'')])\<rparr>"
  by (simp add: kickUser_def emit_def Let_def)

lemma blacklisted_sender_kicked:
  assumes "db s g = Some r" and "u \<in> set (blacklist_users r)"
  shows "handleMessage env g (TextMessage raw mention) u tok s = kickUser env g u ''User is on the blacklist.'' s
       \<and> handleMessage_push env g (TextMessage raw mention) u tok s = kickUser env g u ''User is on the blacklist.'' s"
  using assms by (simp add: handleMessage_def handleMessage_push_def)

lemma handlePasswordAttempt_clears:
  "pendingVerifications (handlePasswordAttempt env u m tok s) u = None"
  by (simp add: handlePasswordAttempt_def kickUser_out replyMessage_def emit_def Let_def getGroupSettings_def
           split: option.splits prod.splits)

lemma fireTimeout_clears:
  "timers s tid = Some t \<Longrightarrow> pendingVerifications (fireTimeout env tid s) (timer_user t) = None"
  by (simp add: fireTimeout_def kickUser_out emit_def Let_def)

lemma no_pending_noop:
  "pendingVerifications s u = None \<Longrightarrow> handleEvent env (Message (UserSource u) m tok) s = s"
  by (simp add: handleEvent_def)

lemma new_Set_Nil [simp]: "new_Set [] = []"
  by (simp add: new_Set_def)

lemma set_add_Nil [simp]: "set_add [] x = [x]"
  by (simp add: set_add_def)

lemma getGroupSettings_cases:
  "getGroupSettings g s = (st, s1) \<Longrightarrow> db s1 g = Some st \<and> db s1 = (db s)(g \<mapsto> st)
     \<and> pendingVerifications s1 = pendingVerifications s \<and> timers s1 = timers s
     \<and> nextTimeoutId s1 = nextTimeoutId s"
  by (auto simp: getGroupSettings_def emit_def split: option.splits)

lemma first_setadmin:
  assumes "getGroupSettings g s = (st, s1)" and "admins st = []"
  shows "handleSetAdmin g u tok mention s =
           s1\<lparr>db := (db s)(g \<mapsto> st\<lparr>admins := [u]\<rparr>),
              out := out s1 @ [ReplyMessage tok ''You are now the first admin.'']\<rparr>"
    and "handleSetAdmin_push g u tok mention s = handleSetAdmin g u tok mention s"
proof -
  from assms(1) have d: "db s1 g = Some st" "db s1 = (db s)(g \<mapsto> st)"
    using getGroupSettings_cases by blast+
  show "handleSetAdmin g u tok mention s =
           s1\<lparr>db := (db s)(g \<mapsto> st\<lparr>admins := [u]\<rparr>),
              out := out s1 @ [ReplyMessage tok ''You are now the first admin.'']\<rparr>"
    using assms d
    by (simp add: handleSetAdmin_def addAdmin_def update_row_def replyMessage_def emit_def)
  show "handleSetAdmin_push g u tok mention s = handleSetAdmin g u tok mention s"
    using assms by (simp add: handleSetAdmin_def handleSetAdmin_push_def)
qed

lemma nonadmin_setadmin:
  assumes "db t g = Some r" and "admins r \<noteq> []" and "v \<notin> set (admins r)"
  shows "handleSetAdmin g v tok mention t = t" and "handleSetAdmin_push g v tok mention t = t"
  using assms by (simp_all add: handleSetAdmin_def handleSetAdmin_push_def)

lemma loop_no_password_clean:
  "\<not> truthy (password st) \<Longrightarrow> db s g = Some r \<Longrightarrow> set ms \<inter> set (blacklist_users r) = {}
   \<Longrightarrow> handleMemberJoined_loop env g st ms s = s"
  by (induction ms arbitrary: s) auto

lemma kickUser_fields [simp]:
  "db (kickUser env g u reason s) = db s"
  "pendingVerifications (kickUser env g u reason s) = pendingVerifications s"
  "timers (kickUser env g u reason s) = timers s"
  "nextTimeoutId (kickUser env g u reason s) = nextTimeoutId s"
  by (simp_all add: kickUser_out)

lemma kickUser_no_push:
  "PushMessage v txt \<in> set (out (kickUser env g u reason s)) \<longleftrightarrow> PushMessage v txt \<in> set (out s)"
  by (auto simp: kickUser_out)

lemma loop_no_password:
  "\<not> truthy (password st) \<Longrightarrow> db s g = Some r \<Longrightarrow>
     pendingVerifications (handleMemberJoined_loop env g st ms s) = pendingVerifications s
   \<and> timers (handleMemberJoined_loop env g st ms s) = timers s
   \<and> db (handleMemberJoined_loop env g st ms s) = db s
   \<and> (PushMessage v txt \<in> set (out (handleMemberJoined_loop env g st ms s))
        \<longleftrightarrow> PushMessage v txt \<in> set (out s))"
proof (induction ms arbitrary: s)
  case Nil
  then show ?case by simp
next
  case (Cons m ms)
  show ?case
  proof (cases "m \<in> set (blacklist_users r)")
    case True
    have "db (kickUser env g m ''A blacklisted user tried to join.'' s) g = Some r"
      using Cons.prems by simp
    from Cons.IH[OF Cons.prems(1) this] True Cons.prems show ?thesis
      by (simp add: kickUser_no_push)
  next
    case False
    with Cons.IH[OF Cons.prems] Cons.prems show ?thesis by simp
  qed
qed

lemma update_row_Some [simp]:
  "db s g = Some r \<Longrightarrow> update_row g f s = s\<lparr>db := (db s)(g \<mapsto> f r)\<rparr>"
  by (simp add: update_row_def)

lemma respond_fields [simp]:
  "db (respond ch txt s) = db s"
  "pendingVerifications (respond ch txt s) = pendingVerifications s"
  "timers (respond ch txt s) = timers s"
  "nextTimeoutId (respond ch txt s) = nextTimeoutId s"
  by (cases ch; simp add: replyMessage_def pushMessage_def emit_def)+

lemma handleSetPassword_db:
  assumes "db s g = Some r" and "args = x # rest"
  shows "db (handleSetPassword ch g args s) =
           (db s)(g \<mapsto> r\<lparr>password := (if toLowerCase x = ''off'' then None else Some x)\<rparr>)"
    and "pendingVerifications (handleSetPassword ch g args s) = pendingVerifications s"
    and "timers (handleSetPassword ch g args s) = timers s"
  using assms by (simp_all add: handleSetPassword_def setPassword_def Let_def)

lemma setpassword_dispatch:
  assumes "db s g = Some r" and "u \<in> set (admins r)" and "u \<notin> set (blacklist_users r)"
    and "toLowerCase (hd (split (trim raw))) = ''!setpassword''"
  shows "handleMessage env g (TextMessage raw m) u tok s
           = handleSetPassword (Reply tok) g (tl (split (trim raw))) s"
    and "handleMessage_push env g (TextMessage raw m) u tok s
           = handleSetPassword (Push u) g (tl (split (trim raw))) s"
  using assms by (simp_all add: handleMessage_def handleMessage_push_def Let_def startsWith_def)

lemma handleMemberJoined_no_password:
  assumes "db s g = Some r" and "\<not> truthy (password r)"
  shows "pendingVerifications (handleMemberJoined env g ms s) = pendingVerifications s"
    and "timers (handleMemberJoined env g ms s) = timers s"
    and "PushMessage v txt \<in> set (out (handleMemberJoined env g ms s)) \<longleftrightarrow> PushMessage v txt \<in> set (out s)"
    and "set ms \<inter> set (blacklist_users r) = {} \<Longrightarrow> handleMemberJoined env g ms s = s"
  using assms loop_no_password[where st=r and s=s and g=g and r=r and env=env and ms=ms]
    loop_no_password_clean[where st=r and s=s and g=g and r=r and env=env and ms=ms]
  by (simp_all add: handleMemberJoined_def)

lemma split_not_Nil [simp]: "split s \<noteq> []"
  by (induction s) (auto split: list.splits)

lemma split_pieces: "p \<in> set (split s) \<Longrightarrow> CHR '' '' \<notin> set p"
  by (induction s arbitrary: p) (auto split: list.splits if_splits)

lemma split_roundtrip: "concat (map (\<lambda>p. p @ '' '') (split s)) = s @ '' ''"
  by (induction s) (auto split: list.splits)

lemma length_split: "length (split s) = Suc (count_list s (CHR '' ''))"
  by (induction s) (auto split: list.splits)

lemma split_token: "CHR '' '' \<notin> set c \<Longrightarrow> split c = [c]"
  by (induction c) auto

lemma split_token_space: "CHR '' '' \<notin> set c \<Longrightarrow> split (c @ CHR '' '' # rest) = c # split rest"
  by (induction c) auto

lemma split_spaces:
  "CHR '' '' \<notin> set w \<Longrightarrow> split (replicate k (CHR '' '') @ w) = replicate k [] @ [w]"
  by (induction k) (auto simp: split_token)

lemma split_run_of_spaces:
  assumes "CHR '' '' \<notin> set c" and "CHR '' '' \<notin> set w"
  shows "split (c @ replicate (Suc k) (CHR '' '') @ w) = c # replicate k [] @ [w]"
  using assms split_token_space[of c "replicate k (CHR '' '') @ w"] split_spaces[of w k]
  by simp

lemma set_new_Set_aux: "set (foldl set_add acc xs) = set acc \<union> set xs"
  by (induction xs arbitrary: acc) (auto simp: set_add_def)

lemma set_new_Set [simp]: "set (new_Set xs) = set xs"
  by (simp add: new_Set_def set_new_Set_aux)

lemma set_set_add [simp]: "set (set_add xs x) = insert x (set xs)"
  by (auto simp: set_add_def)

lemma set_add_lowered:
  "set (foldl (\<lambda>cur w. set_add cur (toLowerCase w)) acc ws) = set acc \<union> toLowerCase ` set ws"
  by (induction ws arbitrary: acc) auto

lemma addBlacklistWords_db:
  assumes "db s g = Some r"
  shows "db (addBlacklistWords g ws s) g =
           Some (r\<lparr>blacklist_words :=
                    foldl (\<lambda>cur w. set_add cur (toLowerCase w)) (new_Set (blacklist_words r)) ws\<rparr>)"
  using assms by (simp add: addBlacklistWords_def)

lemma handleAddBlacklistWords_stores:
  assumes "db s g = Some r" and "W \<in> set args"
  shows "\<exists>r'. db (handleAddBlacklistWords ch g args s) g = Some r'
              \<and> toLowerCase W \<in> set (blacklist_words r')"
proof -
  from assms(2) have "args \<noteq> []" by auto
  then show ?thesis
    using assms addBlacklistWords_db[OF assms(1), of args]
    by (simp add: handleAddBlacklistWords_def set_add_lowered)
qed

lemma plain_text_moderated:
  assumes "db s g = Some r" and "u \<notin> set (admins r)" and "u \<notin> set (blacklist_users r)"
    and "\<not> startsWith (toLowerCase (hd (split (trim raw)))) ''!''"
  shows "handleMessage env g (TextMessage raw m) u tok s =
           (case find (\<lambda>w. sublist w (toLowerCase (trim raw))) (blacklist_words r) of
              None \<Rightarrow> s
            | Some w \<Rightarrow> if w \<noteq> [] then kickUser env g u (''Used blacklisted word: '' @ [CHR 0x27] @ w @ [CHR 0x27]) s else s)"
    and "handleMessage_push env g (TextMessage raw m) u tok s = handleMessage env g (TextMessage raw m) u tok s"
  using assms
  by (simp_all add: handleMessage_def handleMessage_push_def Let_def checkMessageForBlacklist_def)

lemma find_first_match:
  assumes "x \<in> set xs" and "P x"
  shows "\<exists>y. find P xs = Some y \<and> y \<in> set xs \<and> P y"
  using assms by (induction xs) auto

lemma awaiting_reachable:
  "handleEvent platform_ok (MemberJoined (GroupSource ''G'' []) [''U''])
     (awaiting\<lparr>pendingVerifications := Map.empty, timers := Map.empty, nextTimeoutId := 0\<rparr>)
   = awaiting\<lparr>out := [PushMessage ''U'' (''Welcome! This group requires a password. Please reply with the password within ''
                                  @ show_int 2 @ '' minute(s) to stay in the group.'')]\<rparr>"
  by (simp add: awaiting_def handleEvent_def handleMemberJoined_def truthy_def pushMessage_def emit_def)

text \<open>
  C10. A message event from a group whose message is not of type text is dropped by
  \<open>handleMessage\<close> at its first line, in both versions: the state after it is the state
  before it, whoever the sender is. No blacklist is read, nobody is kicked, no command runs.
\<close>

theorem non_text_message_ignored:
  "handleMessage env g (OtherMessage ty) u tok s = s
   \<and> handleMessage_push env g (OtherMessage ty) u tok s = s
   \<and> handleEvent env (Message (GroupSource g u) (OtherMessage ty) tok) s = s
   \<and> handleEvent_push env (Message (GroupSource g u) (OtherMessage ty) tok) s = s"
  by (simp add: handleMessage_def handleMessage_push_def handleEvent_def handleEvent_push_def)

theorem non_text_message_ignored_witness:
  "map_option blacklist_users (db moderated ''G'') = Some [''B'', ''Z'']
   \<and> handleEvent platform_ok (Message (GroupSource ''G'' ''B'') (OtherMessage ''sticker'') ''token'') moderated
       = moderated
   \<and> handleEvent_push platform_ok (Message (GroupSource ''G'' ''B'') (OtherMessage ''sticker'') ''token'') moderated
       = moderated"
  using non_text_message_ignored[of platform_ok "''G''" "''sticker''" "''B''" "''token''" moderated]
  by (simp add: moderated_def)

text \<open>
  C9. When the sender of a text message in a group is on that group's \<open>blacklist_users\<close>,
  the only thing the handler does is to kick the sender: the console line of \<open>kickUser\<close>, the call
  of \<open>kickGroupMember\<close>, and the error line when the platform rejects the call. Nothing is assumed
  about the text or about the admins, so a command from a blacklisted admin is treated the same way.
\<close>

theorem blacklisted_sender_is_kicked:
  assumes "db s g = Some r" and "u \<in> set (blacklist_users r)"
    and "e = Message (GroupSource g u) (TextMessage raw mention) tok"
  shows "handleEvent env e s =
           s\<lparr>out := out s @ [ConsoleLog (''Kicking user '' @ u @ ''. Reason: User is on the blacklist.''),
                              KickGroupMember g u]
                           @ (if kick_ok env g u then []
                              else [ConsoleError (''Failed to kick user '' @ u @ '':'')])\<rparr>
       \<and> handleEvent_push env e s = handleEvent env e s"
  using assms blacklisted_sender_kicked[OF assms(1,2), of env raw mention tok]
  by (simp add: handleEvent_def handleEvent_push_def kickUser_out)

theorem blacklisted_sender_is_kicked_witness:
  "db moderated ''G'' = Some \<lparr>admins = [''A'', ''Z''], password = None,
                       password_timeout_minutes = Some 2,
                       blacklist_words = [], blacklist_users = [''B'', ''Z'']\<rparr>
   \<and> ''Z'' \<in> set [''B'', ''Z''] \<and> ''Z'' \<in> set [''A'', ''Z'']
   \<and> handleEvent platform_ok (Message (GroupSource ''G'' ''Z'') (TextMessage ''!status'' None) ''token'') moderated
      = moderated\<lparr>out := [ConsoleLog ''Kicking user Z. Reason: User is on the blacklist.'',
                            KickGroupMember ''G'' ''Z'']\<rparr>"
  using blacklisted_sender_is_kicked[of moderated "''G''" "\<lparr>admins = [''A'', ''Z''], password = None,
                       password_timeout_minutes = Some 2,
                       blacklist_words = [], blacklist_users = [''B'', ''Z'']\<rparr>" "''Z''"
          "Message (GroupSource ''G'' ''Z'') (TextMessage ''!status'' None) ''token''" "''!status''" None "''token''" platform_ok]
  by (simp add: moderated_def platform_ok_def)

lemma direct_message_handled:
  "handleEvent_push env (Message (UserSource u) m tok) s = handleEvent env (Message (UserSource u) m tok) s"
  "handleEvent env (Message (UserSource u) m tok) s = handlePasswordAttempt env u m tok s"
  by (simp_all add: handleEvent_def handleEvent_push_def handlePasswordAttempt_def split: option.splits)

text \<open>
  C4. A direct message from a user who has no entry in \<open>pendingVerifications\<close> leaves the state as
  it is: no reply, no kick, no change. A password attempt always ends with the sender's entry removed,
  whatever the outcome of the comparison, so a second message after it is such a no-op; so is a message
  that arrives after the expiry callback of the user's timer has run.
\<close>

theorem late_password_attempt_is_noop:
  "(pendingVerifications s u = None \<longrightarrow>
      handleEvent env (Message (UserSource u) m tok) s = s
      \<and> handleEvent_push env (Message (UserSource u) m tok) s = s)
   \<and> pendingVerifications (handleEvent env (Message (UserSource u) m tok) s) u = None
   \<and> handleEvent env' (Message (UserSource u) m' tok') (handleEvent env (Message (UserSource u) m tok) s)
       = handleEvent env (Message (UserSource u) m tok) s
   \<and> (timers s tid = Some t \<and> timer_user t = u \<longrightarrow>
        handleEvent env' (Message (UserSource u) m tok) (fireTimeout env tid s) = fireTimeout env tid s)"
proof -
  have a: "pendingVerifications (handleEvent env (Message (UserSource u) m tok) s) u = None"
    by (simp add: direct_message_handled(2) handlePasswordAttempt_clears)
  have b: "timers s tid = Some t \<Longrightarrow> timer_user t = u \<Longrightarrow> pendingVerifications (fireTimeout env tid s) u = None"
    using fireTimeout_clears[of s tid t env] by simp
  show ?thesis
    using a b no_pending_noop[of _ u] by (simp add: direct_message_handled(1))
qed

theorem late_password_attempt_is_noop_witness:
  "pendingVerifications moderated ''U'' = None
   \<and> handleEvent platform_ok (Message (UserSource ''U'') (TextMessage ''letmein'' None) ''token'') moderated = moderated
   \<and> timers awaiting 0 = Some \<lparr>timer_delay = 120000, timer_group = ''G'', timer_user = ''U''\<rparr>
   \<and> handleEvent platform_ok (Message (UserSource ''U'') (TextMessage ''letmein'' None) ''token'')
        (fireTimeout platform_ok 0 awaiting) = fireTimeout platform_ok 0 awaiting
   \<and> handleEvent platform_ok (Message (UserSource ''U'') (TextMessage ''letmein'' None) ''token2'')
        (handleEvent platform_ok (Message (UserSource ''U'') (TextMessage ''letmein'' None) ''token'') awaiting)
       = handleEvent platform_ok (Message (UserSource ''U'') (TextMessage ''letmein'' None) ''token'') awaiting"
  using late_password_attempt_is_noop[of moderated "''U''" platform_ok "TextMessage ''letmein'' None" "''token''"]
    late_password_attempt_is_noop[of awaiting "''U''" platform_ok "TextMessage ''letmein'' None" "''token''"
      platform_ok "TextMessage ''letmein'' None" "''token2''" 0
      "\<lparr>timer_delay = 120000, timer_group = ''G'', timer_user = ''U''\<rparr>"]
  by (simp add: moderated_def awaiting_def)

theorem member_left_keeps_pending_counterexample:
  "pendingVerifications awaiting ''U'' = Some \<lparr>groupId = ''G'', timeoutId = 0\<rparr>
   \<and> pendingVerifications (handleEvent platform_ok (MemberLeft (GroupSource ''G'' []) [''U'']) awaiting) ''U''
       = Some \<lparr>groupId = ''G'', timeoutId = 0\<rparr>
   \<and> out (fireTimeout platform_ok 0 (handleEvent platform_ok (MemberLeft (GroupSource ''G'' []) [''U'']) awaiting))
       = [ConsoleLog ''Member left: U'', ConsoleLog ''User U timed out. Kicking.'',
          ConsoleLog ''Kicking user U. Reason: Password verification timed out.'',
          KickGroupMember ''G'' ''U'']"
  by (simp add: awaiting_def handleEvent_def emit_def fireTimeout_def kickUser_out platform_ok_def)

text \<open>
  C2, as amended. A member-left event in a group writes one line to the console and changes nothing
  else: the registry and the timers stay as they are, so the expiry callback of a pending user still
  kicks that user when it runs. The event that removes a user's entry is \<open>unfollow\<close>.
\<close>

theorem member_left_only_logs:
  "handleEvent env (MemberLeft (GroupSource g u) members) s
     = s\<lparr>out := out s @ [ConsoleLog (''Member left: '' @ join members)]\<rparr>
   \<and> handleEvent_push env (MemberLeft (GroupSource g u) members) s
     = s\<lparr>out := out s @ [ConsoleLog (''Member left: '' @ join members)]\<rparr>
   \<and> pendingVerifications (handleEvent env (MemberLeft (GroupSource g u) members) s) = pendingVerifications s
   \<and> timers (handleEvent env (MemberLeft (GroupSource g u) members) s) = timers s
   \<and> (timers s tid = Some t \<and> pendingVerifications s (timer_user t) = Some v \<longrightarrow>
        KickGroupMember (timer_group t) (timer_user t)
          \<in> set (out (fireTimeout env' tid (handleEvent env (MemberLeft (GroupSource g u) members) s))))
   \<and> pendingVerifications (handleEvent env (Unfollow src) s) (source_userId src) = None
   \<and> pendingVerifications (handleEvent_push env (Unfollow src) s) (source_userId src) = None"
  by (simp add: handleEvent_def handleEvent_push_def emit_def fireTimeout_def kickUser_out)

theorem member_left_only_logs_witness:
  "timers awaiting 0 = Some \<lparr>timer_delay = 120000, timer_group = ''G'', timer_user = ''U''\<rparr>
   \<and> pendingVerifications awaiting ''U'' = Some \<lparr>groupId = ''G'', timeoutId = 0\<rparr>
   \<and> handleEvent platform_ok (MemberLeft (GroupSource ''G'' []) [''U'']) awaiting
       = awaiting\<lparr>out := [ConsoleLog ''Member left: U'']\<rparr>
   \<and> KickGroupMember ''G'' ''U''
        \<in> set (out (fireTimeout platform_ok 0 (handleEvent platform_ok (MemberLeft (GroupSource ''G'' []) [''U'']) awaiting)))
   \<and> pendingVerifications (handleEvent platform_ok (Unfollow (UserSource ''U'')) awaiting) ''U'' = None"
proof -
  have h: "timers awaiting 0 = Some \<lparr>timer_delay = 120000, timer_group = ''G'', timer_user = ''U''\<rparr>"
    "pendingVerifications awaiting ''U'' = Some \<lparr>groupId = ''G'', timeoutId = 0\<rparr>"
    "out awaiting = []"
    by (simp_all add: awaiting_def)
  show ?thesis
    using h member_left_only_logs[of platform_ok "''G''" "[]" "[''U'']" awaiting 0
      "\<lparr>timer_delay = 120000, timer_group = ''G'', timer_user = ''U''\<rparr>"
      "\<lparr>groupId = ''G'', timeoutId = 0\<rparr>" platform_ok "UserSource ''U''"]
    by auto
qed

lemma handleSetAdmin_after_read:
  assumes "getGroupSettings g s = (st, s1)"
  shows "handleSetAdmin g u tok m s1 = handleSetAdmin g u tok m s"
    and "handleSetAdmin_push g u tok m s1 = handleSetAdmin_push g u tok m s"
proof -
  from getGroupSettings_cases[OF assms] have "getGroupSettings g s1 = (st, s1)" by simp
  then show "handleSetAdmin g u tok m s1 = handleSetAdmin g u tok m s"
    and "handleSetAdmin_push g u tok m s1 = handleSetAdmin_push g u tok m s"
    using assms by (simp_all add: handleSetAdmin_def handleSetAdmin_push_def)
qed

lemma setadmin_message:
  assumes "u \<notin> set (blacklist_users (fst (getGroupSettings g s)))"
    and "toLowerCase (hd (split (trim raw))) = ''!setadmin''"
  shows "handleEvent env (Message (GroupSource g u) (TextMessage raw m) tok) s = handleSetAdmin g u tok m s"
    and "handleEvent_push env (Message (GroupSource g u) (TextMessage raw m) tok) s
           = handleSetAdmin_push g u tok m s"
proof -
  obtain st s1 where gs: "getGroupSettings g s = (st, s1)" by (cases "getGroupSettings g s")
  with assms(1) have b: "isUserBlacklisted g u s = (False, s1)"
    by (simp add: isUserBlacklisted_def)
  show "handleEvent env (Message (GroupSource g u) (TextMessage raw m) tok) s = handleSetAdmin g u tok m s"
    using b assms(2) handleSetAdmin_after_read(1)[OF gs]
    by (simp add: handleEvent_def handleMessage_def Let_def startsWith_def)
  show "handleEvent_push env (Message (GroupSource g u) (TextMessage raw m) tok) s
           = handleSetAdmin_push g u tok m s"
    using b assms(2) handleSetAdmin_after_read(2)[OF gs]
    by (simp add: handleEvent_push_def handleMessage_push_def Let_def startsWith_def)
qed

lemma setadmin_dispatch:
  assumes "db s g = Some r" and "u \<notin> set (blacklist_users r)"
    and "toLowerCase (hd (split (trim raw))) = ''!setadmin''"
  shows "handleMessage env g (TextMessage raw m) u tok s = handleSetAdmin g u tok m s"
    and "handleMessage_push env g (TextMessage raw m) u tok s = handleSetAdmin_push g u tok m s"
  using assms by (simp_all add: handleMessage_def handleMessage_push_def Let_def startsWith_def)

lemma setadmin_parsed:
  "toLowerCase (hd (split (trim ''!setadmin''))) = ''!setadmin''"
  "toLowerCase (hd (split (trim ''  !SetAdmin @A''))) = ''!setadmin''"
  "toLowerCase (hd (split (trim ''!blacklistuser @B''))) = ''!blacklistuser''"
  by (simp_all add: trim_def isWhiteSpace_def toLowerCase_def toLowerChar_def char_of_eq_iff)

lemma fresh_read:
  "getGroupSettings ''G'' fresh =
     (default_row,
      \<lparr>db = [''G'' \<mapsto> default_row], pendingVerifications = Map.empty, timers = Map.empty,
       nextTimeoutId = 0,
       out = [ConsoleLog ''No settings found for group G. Creating new entry.'']\<rparr>)"
  "admins default_row = []" "blacklist_users default_row = []"
  by (simp_all add: getGroupSettings_def fresh_def emit_def default_row_def)

lemma first_admin_state:
  "handleEvent platform_ok (group_text ''A'' ''!setadmin'') fresh =
     \<lparr>db = [''G'' \<mapsto> default_row\<lparr>admins := [''A'']\<rparr>], pendingVerifications = Map.empty,
      timers = Map.empty, nextTimeoutId = 0,
      out = [ConsoleLog ''No settings found for group G. Creating new entry.'',
             ReplyMessage ''token'' ''You are now the first admin.'']\<rparr>"
proof -
  have "handleEvent platform_ok (group_text ''A'' ''!setadmin'') fresh
          = handleSetAdmin ''G'' ''A'' ''token'' None fresh"
    unfolding group_text_def
    by (rule setadmin_message(1)) (simp_all add: fresh_read setadmin_parsed)
  then show ?thesis
    using first_setadmin(1)[OF fresh_read(1) fresh_read(2), of "''A''" "''token''" None]
    by (simp add: fresh_def)
qed

lemma blacklisting_state:
  "db (run platform_ok blacklisting fresh) ''G''
     = Some (default_row\<lparr>admins := [''A''], blacklist_users := [''B'']\<rparr>)"
proof -
  let ?s1 = "handleEvent platform_ok (group_text ''A'' ''!setadmin'') fresh"
  have d1: "db ?s1 ''G'' = Some (default_row\<lparr>admins := [''A'']\<rparr>)"
    by (simp add: first_admin_state)
  have "handleEvent platform_ok
          (Message (GroupSource ''G'' ''A'') (TextMessage ''!blacklistuser @B'' (Some [''B''])) ''token'') ?s1
        = handleBlacklistUser platform_ok (Reply ''token'') ''G'' (Some [''B'']) ?s1"
    using d1 setadmin_parsed(3)
    by (simp add: handleEvent_def handleMessage_def Let_def startsWith_def fresh_read)
  moreover have "db (handleBlacklistUser platform_ok (Reply ''token'') ''G'' (Some [''B'']) ?s1) ''G''
        = Some (default_row\<lparr>admins := [''A''], blacklist_users := [''B'']\<rparr>)"
    using d1
    by (simp add: handleBlacklistUser_def mentionedUser_def addUserToBlacklist_def Let_def
          platform_ok_def fresh_read kickUser_out replyMessage_def emit_def update_row_def)
  ultimately show ?thesis
    by (simp add: blacklisting_def)
qed

theorem blacklisted_setadmin_is_kicked_counterexample:
  "map_option admins (db (run platform_ok blacklisting fresh) ''G'') = Some [''A'']
   \<and> map_option blacklist_users (db (run platform_ok blacklisting fresh) ''G'') = Some [''B'']
   \<and> out (handleEvent platform_ok (group_text ''B'' ''!setadmin'') (run platform_ok blacklisting fresh))
       = out (run platform_ok blacklisting fresh)
         @ [ConsoleLog ''Kicking user B. Reason: User is on the blacklist.'', KickGroupMember ''G'' ''B'']
   \<and> out (handleEvent_push platform_ok (group_text ''B'' ''!setadmin'') (run platform_ok blacklisting fresh))
       = out (run platform_ok blacklisting fresh)
         @ [ConsoleLog ''Kicking user B. Reason: User is on the blacklist.'', KickGroupMember ''G'' ''B'']"
proof -
  have k: "kick_ok platform_ok ''G'' ''B''" by (simp add: platform_ok_def)
  show ?thesis
    using k blacklisted_sender_kicked[OF blacklisting_state, of "''B''" platform_ok "''!setadmin''" None "''token''"]
    by (simp add: blacklisting_state handleEvent_def handleEvent_push_def group_text_def kickUser_out)
qed

text \<open>
  C1, as amended. In a group whose admins are empty (the row has no admin, or there is no row yet
  and it is created with the defaults), a text whose command is \<open>!setadmin\<close>, from a sender who is
  not on the group's \<open>blacklist_users\<close>, makes the sender the only admin and is answered by a reply
  on the group's channel, with or without a mention, in both versions. In a group whose admins are
  not empty, such a text from a sender who is neither an admin nor blacklisted leaves the state
  unchanged: no reply, no push, no change. A sender who is on \<open>blacklist_users\<close> is kicked instead,
  whatever the admins are, because \<open>handleMessage\<close> tests the user blacklist before it reads the
  command.
\<close>

theorem setadmin_message_bootstraps:
  "(e = Message (GroupSource g u) (TextMessage raw mention) tok
      \<and> toLowerCase (hd (split (trim raw))) = ''!setadmin''
      \<and> admins (fst (getGroupSettings g s)) = []
      \<and> u \<notin> set (blacklist_users (fst (getGroupSettings g s))) \<longrightarrow>
        db (handleEvent env e s) = (db s)(g \<mapsto> (fst (getGroupSettings g s))\<lparr>admins := [u]\<rparr>)
        \<and> out (handleEvent env e s)
            = out (snd (getGroupSettings g s)) @ [ReplyMessage tok ''You are now the first admin.'']
        \<and> pendingVerifications (handleEvent env e s) = pendingVerifications s
        \<and> timers (handleEvent env e s) = timers s
        \<and> handleEvent_push env e s = handleEvent env e s)
   \<and> (e' = Message (GroupSource g v) (TextMessage raw' mention') tok'
      \<and> toLowerCase (hd (split (trim raw'))) = ''!setadmin''
      \<and> db t g = Some r \<and> admins r \<noteq> [] \<and> v \<notin> set (admins r) \<and> v \<notin> set (blacklist_users r) \<longrightarrow>
        handleEvent env e' t = t \<and> handleEvent_push env e' t = t)
   \<and> (e' = Message (GroupSource g v) (TextMessage raw' mention') tok'
      \<and> db t g = Some r \<and> v \<in> set (blacklist_users r) \<longrightarrow>
        handleEvent env e' t = kickUser env g v ''User is on the blacklist.'' t
        \<and> handleEvent_push env e' t = kickUser env g v ''User is on the blacklist.'' t)"
proof (intro conjI impI)
  assume h: "e = Message (GroupSource g u) (TextMessage raw mention) tok
      \<and> toLowerCase (hd (split (trim raw))) = ''!setadmin''
      \<and> admins (fst (getGroupSettings g s)) = []
      \<and> u \<notin> set (blacklist_users (fst (getGroupSettings g s)))"
  obtain st s1 where gs: "getGroupSettings g s = (st, s1)" by (cases "getGroupSettings g s")
  from getGroupSettings_cases[OF gs]
  have f: "pendingVerifications s1 = pendingVerifications s" "timers s1 = timers s" by simp_all
  from h gs have a: "admins st = []" by simp
  have e1: "handleEvent env e s = handleSetAdmin g u tok mention s"
    and e2: "handleEvent_push env e s = handleSetAdmin_push g u tok mention s"
    using h setadmin_message[of u g s raw env mention tok] by simp_all
  note fs = first_setadmin[OF gs a, of u tok mention]
  show "db (handleEvent env e s) = (db s)(g \<mapsto> (fst (getGroupSettings g s))\<lparr>admins := [u]\<rparr>)"
    unfolding e1 fs(1) by (simp add: gs)
  show "out (handleEvent env e s)
            = out (snd (getGroupSettings g s)) @ [ReplyMessage tok ''You are now the first admin.'']"
    unfolding e1 fs(1) by (simp add: gs)
  show "pendingVerifications (handleEvent env e s) = pendingVerifications s"
    unfolding e1 fs(1) by (simp add: f)
  show "timers (handleEvent env e s) = timers s"
    unfolding e1 fs(1) by (simp add: f)
  show "handleEvent_push env e s = handleEvent env e s"
    unfolding e1 e2 by (rule fs(2))
next
  assume h: "e' = Message (GroupSource g v) (TextMessage raw' mention') tok'
      \<and> toLowerCase (hd (split (trim raw'))) = ''!setadmin''
      \<and> db t g = Some r \<and> admins r \<noteq> [] \<and> v \<notin> set (admins r) \<and> v \<notin> set (blacklist_users r)"
  then have nb: "v \<notin> set (blacklist_users (fst (getGroupSettings g t)))" by simp
  from h setadmin_message[OF nb, of raw' env mention' tok']
    nonadmin_setadmin[of t g r v tok' mention']
  show "handleEvent env e' t = t" and "handleEvent_push env e' t = t" by simp_all
next
  assume h: "e' = Message (GroupSource g v) (TextMessage raw' mention') tok'
      \<and> db t g = Some r \<and> v \<in> set (blacklist_users r)"
  then show "handleEvent env e' t = kickUser env g v ''User is on the blacklist.'' t"
    and "handleEvent_push env e' t = kickUser env g v ''User is on the blacklist.'' t"
    using blacklisted_sender_kicked[of t g r v env raw' mention' tok']
    by (simp_all add: handleEvent_def handleEvent_push_def)
qed

theorem setadmin_message_bootstraps_witness:
  "admins (fst (getGroupSettings ''G'' fresh)) = []
   \<and> ''A'' \<notin> set (blacklist_users (fst (getGroupSettings ''G'' fresh)))
   \<and> toLowerCase (hd (split (trim ''!setadmin''))) = ''!setadmin''
   \<and> db (handleEvent platform_ok (group_text ''A'' ''!setadmin'') fresh)
       = [''G'' \<mapsto> default_row\<lparr>admins := [''A'']\<rparr>]
   \<and> out (handleEvent platform_ok (group_text ''A'' ''!setadmin'') fresh)
       = [ConsoleLog ''No settings found for group G. Creating new entry.'',
          ReplyMessage ''token'' ''You are now the first admin.'']
   \<and> handleEvent_push platform_ok (group_text ''A'' ''!setadmin'') fresh
       = handleEvent platform_ok (group_text ''A'' ''!setadmin'') fresh
   \<and> toLowerCase (hd (split (trim ''  !SetAdmin @A''))) = ''!setadmin''
   \<and> ''C'' \<notin> set [''A''] \<and> ''C'' \<notin> set []
   \<and> handleEvent platform_ok
         (Message (GroupSource ''G'' ''C'') (TextMessage ''  !SetAdmin @A'' (Some [''A''])) ''token'')
         (handleEvent platform_ok (group_text ''A'' ''!setadmin'') fresh)
       = handleEvent platform_ok (group_text ''A'' ''!setadmin'') fresh
   \<and> handleEvent_push platform_ok
         (Message (GroupSource ''G'' ''C'') (TextMessage ''  !SetAdmin @A'' (Some [''A''])) ''token'')
         (handleEvent platform_ok (group_text ''A'' ''!setadmin'') fresh)
       = handleEvent platform_ok (group_text ''A'' ''!setadmin'') fresh
   \<and> ''B'' \<in> set [''B'', ''Z'']
   \<and> handleEvent platform_ok (group_text ''B'' ''!setadmin'') moderated
       = kickUser platform_ok ''G'' ''B'' ''User is on the blacklist.'' moderated"
proof -
  let ?s1 = "handleEvent platform_ok (group_text ''A'' ''!setadmin'') fresh"
  have d1: "db ?s1 ''G'' = Some (default_row\<lparr>admins := [''A'']\<rparr>)"
    by (simp add: first_admin_state)
  have m: "db moderated ''G'' = Some \<lparr>admins = [''A'', ''Z''], password = None,
             password_timeout_minutes = Some 2, blacklist_words = [], blacklist_users = [''B'', ''Z'']\<rparr>"
    by (simp add: moderated_def)
  have fr: "db fresh = Map.empty" by (simp add: fresh_def)
  note t = setadmin_message_bootstraps[of "group_text ''A'' ''!setadmin''" "''G''" "''A''" "''!setadmin''"
      None "''token''" fresh platform_ok]
  have a: "db ?s1 = [''G'' \<mapsto> default_row\<lparr>admins := [''A'']\<rparr>]"
    "out ?s1 = [ConsoleLog ''No settings found for group G. Creating new entry.'',
          ReplyMessage ''token'' ''You are now the first admin.'']"
    "handleEvent_push platform_ok (group_text ''A'' ''!setadmin'') fresh = ?s1"
    using t[THEN conjunct1] fr by (simp_all add: group_text_def fresh_read setadmin_parsed)
  have b: "handleEvent platform_ok
         (Message (GroupSource ''G'' ''C'') (TextMessage ''  !SetAdmin @A'' (Some [''A''])) ''token'') ?s1 = ?s1"
    "handleEvent_push platform_ok
         (Message (GroupSource ''G'' ''C'') (TextMessage ''  !SetAdmin @A'' (Some [''A''])) ''token'') ?s1 = ?s1"
    using setadmin_message_bootstraps[where g = "''G''" and v = "''C''" and raw' = "''  !SetAdmin @A''"
        and mention' = "Some [''A'']" and tok' = "''token''" and t = ?s1
        and r = "default_row\<lparr>admins := [''A'']\<rparr>" and env = platform_ok
        and e' = "Message (GroupSource ''G'' ''C'') (TextMessage ''  !SetAdmin @A'' (Some [''A''])) ''token''",
        THEN conjunct2, THEN conjunct1] d1
    by (simp_all add: setadmin_parsed fresh_read)
  have c: "handleEvent platform_ok (group_text ''B'' ''!setadmin'') moderated
       = kickUser platform_ok ''G'' ''B'' ''User is on the blacklist.'' moderated"
    using setadmin_message_bootstraps[where g = "''G''" and v = "''B''" and raw' = "''!setadmin''"
        and mention' = None and tok' = "''token''" and t = moderated
        and r = "\<lparr>admins = [''A'', ''Z''], password = None,
             password_timeout_minutes = Some 2, blacklist_words = [], blacklist_users = [''B'', ''Z'']\<rparr>"
        and env = platform_ok and e' = "group_text ''B'' ''!setadmin''",
        THEN conjunct2, THEN conjunct2] m
    by (simp add: group_text_def)
  show ?thesis
    using a b c by (simp add: fresh_read setadmin_parsed)
qed

lemma char_eq_char_of_iff: "c = char_of n \<longleftrightarrow> take_bit 8 (n::nat) = of_char c"
  using char_of_eq_iff[of n c] by auto

lemmas string_eval = trim_def isWhiteSpace_def toLowerCase_def toLowerChar_def char_of_eq_iff
  char_eq_char_of_iff startsWith_def

lemma None_short: "\<not> MAX_REPLY_LENGTH < length ''None''"
  by (simp add: MAX_REPLY_LENGTH_def)

lemma show_words_reply:
  assumes "db s g = Some r"
  shows "handleShowBlacklistWords ch g s =
           respond ch (''--- Blacklisted Words ('' @ show_nat (length (blacklist_words r)) @ '') ---\<newline>''
             @ (if blacklist_words r = [] then ''None''
                else if MAX_REPLY_LENGTH < length (join (blacklist_words r))
                then take MAX_REPLY_LENGTH (join (blacklist_words r)) @ ''...''
                else join (blacklist_words r))) s"
proof (cases "blacklist_words r = []")
  case True
  with assms None_short show ?thesis
    by (simp add: handleShowBlacklistWords_def Let_def del: length_greater_0_conv)
next
  case False
  with assms show ?thesis
    by (simp add: handleShowBlacklistWords_def Let_def)
qed

lemma show_users_reply:
  assumes "db s g = Some r"
  shows "handleShowBlacklistUsers env ch g s =
           respond ch (''--- Blacklisted Users ('' @ show_nat (length (blacklist_users r)) @ '') ---\<newline>''
             @ (if blacklist_users r = [] then ''None''
                else if MAX_REPLY_LENGTH < length (join (map (displayNameOf env) (blacklist_users r)))
                then take MAX_REPLY_LENGTH (join (map (displayNameOf env) (blacklist_users r))) @ ''...''
                else join (map (displayNameOf env) (blacklist_users r)))) s"
  using assms by (simp add: handleShowBlacklistUsers_def Let_def)

lemma show_nat_small: "show_nat (Suc 0) = ''1''" "show_nat (Suc (Suc 0)) = ''2''"
  by (simp_all add: show_nat.simps digit_def char_of_eq_iff)

text \<open>
  C6. When the words of the blacklist, joined by \<open>", "\<close>, are longer than 4800 characters, the
  listing sent by \<open>handleShowBlacklistWords\<close> is the first 4800 characters of the joined text followed
  by \<open>...\<close>. The same holds, independently, for the display names sent by
  \<open>handleShowBlacklistUsers\<close>. A listing that is not empty and has at most 4800 characters is sent
  whole, without the marker.
\<close>

theorem long_listing_truncated:
  assumes "db s g = Some r"
  shows "(4800 < length (join (blacklist_words r)) \<longrightarrow>
            handleShowBlacklistWords ch g s =
              respond ch (''--- Blacklisted Words ('' @ show_nat (length (blacklist_words r)) @ '') ---\<newline>''
                @ take 4800 (join (blacklist_words r)) @ ''...'') s
            \<and> length (take 4800 (join (blacklist_words r))) = 4800)
       \<and> (4800 < length (join (map (displayNameOf env) (blacklist_users r))) \<longrightarrow>
            handleShowBlacklistUsers env ch g s =
              respond ch (''--- Blacklisted Users ('' @ show_nat (length (blacklist_users r)) @ '') ---\<newline>''
                @ take 4800 (join (map (displayNameOf env) (blacklist_users r))) @ ''...'') s
            \<and> length (take 4800 (join (map (displayNameOf env) (blacklist_users r)))) = 4800)
       \<and> (blacklist_words r \<noteq> [] \<and> length (join (blacklist_words r)) \<le> 4800 \<longrightarrow>
            handleShowBlacklistWords ch g s =
              respond ch (''--- Blacklisted Words ('' @ show_nat (length (blacklist_words r)) @ '') ---\<newline>''
                @ join (blacklist_words r)) s)
       \<and> (blacklist_users r \<noteq> [] \<and> length (join (map (displayNameOf env) (blacklist_users r))) \<le> 4800 \<longrightarrow>
            handleShowBlacklistUsers env ch g s =
              respond ch (''--- Blacklisted Users ('' @ show_nat (length (blacklist_users r)) @ '') ---\<newline>''
                @ join (map (displayNameOf env) (blacklist_users r))) s)"
proof -
  have m: "MAX_REPLY_LENGTH = 4800" by (simp add: MAX_REPLY_LENGTH_def)
  have w: "4800 < length (join (blacklist_words r)) \<Longrightarrow> blacklist_words r \<noteq> []"
    and u: "4800 < length (join (map (displayNameOf env) (blacklist_users r))) \<Longrightarrow> blacklist_users r \<noteq> []"
    by auto
  show ?thesis
    using w u show_words_reply[OF assms, of ch] show_users_reply[OF assms, of env ch]
    unfolding m by auto
qed

lemma displayNameOf_examples:
  "displayNameOf platform_ok i = i"
  "displayNameOf profiles_fail i = ''Unknown (ID: '' @ i @ '')''"
  by (simp_all add: displayNameOf_def platform_ok_def profiles_fail_def)

lemma long_listing_facts:
  "join [replicate 4000 (CHR ''a''), replicate 4000 (CHR ''b'')]
     = replicate 4000 (CHR ''a'') @ '', '' @ replicate 4000 (CHR ''b'')"
  "take 4800 (replicate 4000 (CHR ''a'') @ '', '' @ replicate 4000 (CHR ''b''))
     = replicate 4000 (CHR ''a'') @ '', '' @ replicate 798 (CHR ''b'')"
  "join [replicate 4000 (CHR ''u''), replicate 4000 (CHR ''v'')]
     = replicate 4000 (CHR ''u'') @ '', '' @ replicate 4000 (CHR ''v'')"
  "take 4800 (replicate 4000 (CHR ''u'') @ '', '' @ replicate 4000 (CHR ''v''))
     = replicate 4000 (CHR ''u'') @ '', '' @ replicate 798 (CHR ''v'')"
  "join [''spam'', ''scam''] = ''spam, scam''"
  "join [''Unknown (ID: B)'', ''Unknown (ID: Z)''] = ''Unknown (ID: B), Unknown (ID: Z)''"
  by simp_all

lemma long_listing_rows:
  "db long_words ''G'' = Some \<lparr>admins = [''A''], password = None, password_timeout_minutes = Some 2,
       blacklist_words = [replicate 4000 (CHR ''a''), replicate 4000 (CHR ''b'')], blacklist_users = []\<rparr>"
  "db long_users ''G'' = Some \<lparr>admins = [''A''], password = None, password_timeout_minutes = Some 2,
       blacklist_words = [''spam'', ''scam''],
       blacklist_users = [replicate 4000 (CHR ''u''), replicate 4000 (CHR ''v'')]\<rparr>"
  "db moderated ''G'' = Some \<lparr>admins = [''A'', ''Z''], password = None, password_timeout_minutes = Some 2,
       blacklist_words = [], blacklist_users = [''B'', ''Z'']\<rparr>"
  by (simp_all add: long_words_def long_users_def moderated_def)

theorem long_listing_truncated_witness:
  "map_option blacklist_users (db long_words ''G'') = Some []
   \<and> 4800 < length (join [replicate 4000 (CHR ''a''), replicate 4000 (CHR ''b'')])
   \<and> handleShowBlacklistWords (Reply ''token'') ''G'' long_words =
         respond (Reply ''token'')
           (''--- Blacklisted Words (2) ---\<newline>''
            @ replicate 4000 (CHR ''a'') @ '', '' @ replicate 798 (CHR ''b'') @ ''...'')
           long_words
   \<and> 4800 < length (join (map (displayNameOf platform_ok) [replicate 4000 (CHR ''u''), replicate 4000 (CHR ''v'')]))
   \<and> handleShowBlacklistUsers platform_ok (Push ''A'') ''G'' long_users =
         respond (Push ''A'')
           (''--- Blacklisted Users (2) ---\<newline>''
            @ replicate 4000 (CHR ''u'') @ '', '' @ replicate 798 (CHR ''v'') @ ''...'')
           long_users
   \<and> length (join [''spam'', ''scam'']) \<le> 4800
   \<and> handleShowBlacklistWords (Push ''A'') ''G'' long_users =
         respond (Push ''A'') ''--- Blacklisted Words (2) ---\<newline>spam, scam'' long_users
   \<and> length (join (map (displayNameOf profiles_fail) [''B'', ''Z''])) \<le> 4800
   \<and> handleShowBlacklistUsers profiles_fail (Reply ''token'') ''G'' moderated =
         respond (Reply ''token'')
           ''--- Blacklisted Users (2) ---\<newline>Unknown (ID: B), Unknown (ID: Z)'' moderated"
proof -
  note f = long_listing_facts
  have a: "handleShowBlacklistWords (Reply ''token'') ''G'' long_words =
         respond (Reply ''token'')
           (''--- Blacklisted Words (2) ---\<newline>''
            @ replicate 4000 (CHR ''a'') @ '', '' @ replicate 798 (CHR ''b'') @ ''...'')
           long_words"
    using long_listing_truncated[OF long_listing_rows(1), of "Reply ''token''" platform_ok]
    by (simp add: f(1,2) show_nat_small)
  have b: "handleShowBlacklistUsers platform_ok (Push ''A'') ''G'' long_users =
         respond (Push ''A'')
           (''--- Blacklisted Users (2) ---\<newline>''
            @ replicate 4000 (CHR ''u'') @ '', '' @ replicate 798 (CHR ''v'') @ ''...'')
           long_users"
    and c: "handleShowBlacklistWords (Push ''A'') ''G'' long_users =
         respond (Push ''A'') ''--- Blacklisted Words (2) ---\<newline>spam, scam'' long_users"
    using long_listing_truncated[OF long_listing_rows(2), of "Push ''A''" platform_ok]
    by (simp_all add: f(3,4,5) show_nat_small displayNameOf_examples)
  have d: "handleShowBlacklistUsers profiles_fail (Reply ''token'') ''G'' moderated =
         respond (Reply ''token'')
           ''--- Blacklisted Users (2) ---\<newline>Unknown (ID: B), Unknown (ID: Z)'' moderated"
    using long_listing_truncated[OF long_listing_rows(3), of "Reply ''token''" profiles_fail]
    by (simp add: f(6) show_nat_small displayNameOf_examples)
  show ?thesis
    using a b c d by (simp add: f long_listing_rows displayNameOf_examples)
qed

text \<open>
  C8. An admin who is not blacklisted sends \<open>!setpassword X\<close> and then \<open>!setpassword off\<close> (in
  any letter case): the password of the group is \<open>X\<close> after the first command and null after the
  second. A member-joined event handled after that registers no pending verification, schedules no
  timer and pushes no prompt; when none of the joining members is blacklisted it changes nothing at all.
\<close>

theorem setpassword_off_admits_silently:
  assumes "hm = handleMessage \<or> hm = handleMessage_push"
    and "db s g = Some r" and "u \<in> set (admins r)" and "u \<notin> set (blacklist_users r)"
    and "toLowerCase (hd (split (trim raw1))) = ''!setpassword''"
    and "tl (split (trim raw1)) = X # rest1" and "toLowerCase X \<noteq> ''off''"
    and "toLowerCase (hd (split (trim raw2))) = ''!setpassword''"
    and "tl (split (trim raw2)) = off # rest2" and "toLowerCase off = ''off''"
    and "s1 = hm env1 g (TextMessage raw1 m1) u tok1 s"
    and "s2 = hm env2 g (TextMessage raw2 m2) u tok2 s1"
    and "s3 = handleMemberJoined env3 g members s2"
  shows "db s1 g = Some (r\<lparr>password := Some X\<rparr>)
       \<and> db s2 g = Some (r\<lparr>password := None\<rparr>)
       \<and> pendingVerifications s3 = pendingVerifications s2
       \<and> timers s3 = timers s2
       \<and> (PushMessage v prompt \<in> set (out s3) \<longleftrightarrow> PushMessage v prompt \<in> set (out s2))
       \<and> (set members \<inter> set (blacklist_users r) = {} \<longrightarrow> s3 = s2)"
proof -
  define ch1 ch2 where "ch1 = (if hm = handleMessage then Reply tok1 else Push u)"
    and "ch2 = (if hm = handleMessage then Reply tok2 else Push u)"
  have e1: "s1 = handleSetPassword ch1 g (X # rest1) s"
    using assms(1-6,11) setpassword_dispatch[of s g r u raw1 env1 m1 tok1]
    by (auto simp: ch1_def)
  have d1: "db s1 g = Some (r\<lparr>password := Some X\<rparr>)"
    using handleSetPassword_db[OF assms(2), of "X # rest1" X rest1 ch1] assms(7) by (simp add: e1)
  have e2: "s2 = handleSetPassword ch2 g (off # rest2) s1"
    using assms(1,3,4,8,9,12) setpassword_dispatch[OF d1, of u raw2 env2 m2 tok2]
    by (auto simp: ch2_def)
  have d2: "db s2 g = Some (r\<lparr>password := None\<rparr>)"
    using handleSetPassword_db[OF d1, of "off # rest2" off rest2 ch2] assms(10) by (simp add: e2)
  have np: "\<not> truthy (password (r\<lparr>password := None\<rparr>))" by (simp add: truthy_def)
  have bl: "blacklist_users (r\<lparr>password := None\<rparr>) = blacklist_users r" by simp
  show ?thesis
    using d1 d2 handleMemberJoined_no_password[OF d2 np] assms(13)
    by (simp add: bl)
qed

theorem setpassword_off_admits_silently_witness:
  "db moderated ''G'' = Some \<lparr>admins = [''A'', ''Z''], password = None,
                       password_timeout_minutes = Some 2,
                       blacklist_words = [], blacklist_users = [''B'', ''Z'']\<rparr>
   \<and> ''A'' \<in> set [''A'', ''Z''] \<and> ''A'' \<notin> set [''B'', ''Z'']
   \<and> tl (split (trim ''!setpassword letmein'')) = [''letmein'']
   \<and> tl (split (trim '' !SetPassword OFF now  '')) = [''OFF'', ''now'']
   \<and> map_option password
        (db (handleMessage platform_ok ''G'' (TextMessage ''!setpassword letmein'' None) ''A'' ''t1'' moderated) ''G'')
       = Some (Some ''letmein'')
   \<and> map_option password
        (db (handleMessage platform_ok ''G'' (TextMessage '' !SetPassword OFF now  '' None) ''A'' ''t2''
              (handleMessage platform_ok ''G'' (TextMessage ''!setpassword letmein'' None) ''A'' ''t1'' moderated)) ''G'')
       = Some None
   \<and> handleMemberJoined platform_ok ''G'' [''C'', ''D'']
         (handleMessage platform_ok ''G'' (TextMessage '' !SetPassword OFF now  '' None) ''A'' ''t2''
            (handleMessage platform_ok ''G'' (TextMessage ''!setpassword letmein'' None) ''A'' ''t1'' moderated))
       = handleMessage platform_ok ''G'' (TextMessage '' !SetPassword OFF now  '' None) ''A'' ''t2''
            (handleMessage platform_ok ''G'' (TextMessage ''!setpassword letmein'' None) ''A'' ''t1'' moderated)"
proof -
  have h: "db moderated ''G'' = Some \<lparr>admins = [''A'', ''Z''], password = None,
                       password_timeout_minutes = Some 2,
                       blacklist_words = [], blacklist_users = [''B'', ''Z'']\<rparr>"
    by (simp add: moderated_def)
  have p: "toLowerCase (hd (split (trim ''!setpassword letmein''))) = ''!setpassword''"
    "tl (split (trim ''!setpassword letmein'')) = [''letmein'']"
    "toLowerCase ''letmein'' \<noteq> ''off''"
    "toLowerCase (hd (split (trim '' !SetPassword OFF now  ''))) = ''!setpassword''"
    "tl (split (trim '' !SetPassword OFF now  '')) = [''OFF'', ''now'']"
    "toLowerCase ''OFF'' = ''off''"
    by (simp_all add: string_eval)
  show ?thesis
    using h p setpassword_off_admits_silently[of handleMessage moderated "''G''"
        "\<lparr>admins = [''A'', ''Z''], password = None, password_timeout_minutes = Some 2,
          blacklist_words = [], blacklist_users = [''B'', ''Z'']\<rparr>" "''A''"
        "''!setpassword letmein''" "''letmein''" "[]" "'' !SetPassword OFF now  ''" "''OFF''" "[''now'']"
        "handleMessage platform_ok ''G'' (TextMessage ''!setpassword letmein'' None) ''A'' ''t1'' moderated"
        platform_ok None "''t1''"
        "handleMessage platform_ok ''G'' (TextMessage '' !SetPassword OFF now  '' None) ''A'' ''t2''
            (handleMessage platform_ok ''G'' (TextMessage ''!setpassword letmein'' None) ''A'' ''t1'' moderated)"
        platform_ok None "''t2''"
        "handleMemberJoined platform_ok ''G'' [''C'', ''D'']
         (handleMessage platform_ok ''G'' (TextMessage '' !SetPassword OFF now  '' None) ''A'' ''t2''
            (handleMessage platform_ok ''G'' (TextMessage ''!setpassword letmein'' None) ''A'' ''t1'' moderated))"
        platform_ok "[''C'', ''D'']"]
    by auto
qed

lemma mentionedUser_Some [simp]: "mentionedUser (Some (x # xs)) = Some x"
  by (simp add: mentionedUser_def)

lemma blacklist_mutation_persists:
  assumes "db s g = Some r" and "mentionedUser mention = Some x" and "x \<notin> set (admins r)"
  shows "db (handleBlacklistUser env ch g mention s) g
           = Some (r\<lparr>blacklist_users := set_add (new_Set (blacklist_users r)) x\<rparr>)"
  using assms
  by (simp add: handleBlacklistUser_def addUserToBlacklist_def Let_def emit_def split: option.splits)

lemma profile_failure_reported_degraded:
  assumes "db s g = Some r" and "mentionedUser mention = Some x" and "x \<notin> set (admins r)"
    and "groupMemberProfile env g x = None"
  shows "out (handleBlacklistUser env (Reply tok) g mention s) =
           out s @ [ConsoleError ''Error in handleBlacklistUser:'',
                    ReplyMessage tok ''User ID added to blacklist, but could not be removed from group (may have already left).'']"
  using assms
  by (simp add: handleBlacklistUser_def addUserToBlacklist_def Let_def emit_def replyMessage_def)

lemma kick_failure_reported_as_success:
  assumes "db s g = Some r" and "mentionedUser mention = Some x" and "x \<notin> set (admins r)"
    and "groupMemberProfile env g x = Some name" and "\<not> kick_ok env g x"
  shows "out (handleBlacklistUser env (Reply tok) g mention s) =
           out s @ [ConsoleLog (''Kicking user '' @ x @ ''. Reason: User has been blacklisted.''),
                    KickGroupMember g x,
                    ConsoleError (''Failed to kick user '' @ x @ '':''),
                    ReplyMessage tok (name @ '' has been blacklisted and removed.'')]"
  using assms
  by (simp add: handleBlacklistUser_def addUserToBlacklist_def Let_def emit_def kickUser_out replyMessage_def)

lemma blacklistuser_dispatch:
  assumes "db s g = Some r" and "u \<in> set (admins r)" and "u \<notin> set (blacklist_users r)"
    and "toLowerCase (hd (split (trim raw))) = ''!blacklistuser''"
  shows "handleMessage env g (TextMessage raw m) u tok s = handleBlacklistUser env (Reply tok) g m s"
    and "handleMessage_push env g (TextMessage raw m) u tok s = handleBlacklistUser env (Push u) g m s"
  using assms by (simp_all add: handleMessage_def handleMessage_push_def Let_def startsWith_def)

lemma moderated_row:
  "db moderated ''G'' = Some \<lparr>admins = [''A'', ''Z''], password = None,
                       password_timeout_minutes = Some 2,
                       blacklist_words = [], blacklist_users = [''B'', ''Z'']\<rparr>"
  "out moderated = []"
  by (simp_all add: moderated_def)

text \<open>
  C3, at an input where the code departs from it. The admin \<open>A\<close> blacklists \<open>C\<close>, the profile of
  \<open>C\<close> is found and the platform rejects the kick. \<open>kickUser\<close> catches the failure and only logs
  it, so \<open>handleBlacklistUser\<close> goes on to its last line and answers that \<open>C\<close> has been blacklisted
  and removed. The store keeps \<open>C\<close> on the blacklist, as the claim says; the answer is the one of
  full success, which the claim excludes.
\<close>

theorem failed_kick_reported_as_removed:
  "\<not> kick_ok kick_fails ''G'' ''C''
   \<and> out (handleEvent kick_fails
             (Message (GroupSource ''G'' ''A'') (TextMessage ''!blacklistuser @C'' (Some [''C''])) ''token'')
             moderated)
       = [ConsoleLog ''Kicking user C. Reason: User has been blacklisted.'',
          KickGroupMember ''G'' ''C'',
          ConsoleError ''Failed to kick user C:'',
          ReplyMessage ''token'' ''C has been blacklisted and removed.'']
   \<and> map_option blacklist_users
        (db (handleEvent kick_fails
               (Message (GroupSource ''G'' ''A'') (TextMessage ''!blacklistuser @C'' (Some [''C''])) ''token'')
               moderated) ''G'')
       = Some [''B'', ''Z'', ''C'']"
proof -
  have p: "toLowerCase (hd (split (trim ''!blacklistuser @C''))) = ''!blacklistuser''"
    by (simp add: string_eval)
  have e: "handleEvent kick_fails
             (Message (GroupSource ''G'' ''A'') (TextMessage ''!blacklistuser @C'' (Some [''C''])) ''token'')
             moderated
           = handleBlacklistUser kick_fails (Reply ''token'') ''G'' (Some [''C'']) moderated"
    using blacklistuser_dispatch(1)[OF moderated_row(1) _ _ p, of "''A''" kick_fails "Some [''C'']" "''token''"]
    by (simp add: handleEvent_def)
  have k: "groupMemberProfile kick_fails ''G'' ''C'' = Some ''C''" "\<not> kick_ok kick_fails ''G'' ''C''"
    by (simp_all add: kick_fails_def)
  show ?thesis
    unfolding e
    using k kick_failure_reported_as_success[OF moderated_row(1) _ _ k, of "Some [''C'']" "''token''"]
      blacklist_mutation_persists[OF moderated_row(1), of "Some [''C'']" "''C''" kick_fails "Reply ''token''"]
    by (simp add: moderated_row(2) new_Set_def set_add_def)
qed

lemma argument_command_dispatch:
  assumes "db s g = Some r" and "u \<in> set (admins r)" and "u \<notin> set (blacklist_users r)"
    and "c = toLowerCase (hd (split (trim raw)))" and "a = tl (split (trim raw))"
    and "c \<in> {''!setpassword'', ''!setpasswordtimeout'', ''!addblacklist'', ''!removeblacklist''}"
  shows "handleMessage env g (TextMessage raw m) u tok s =
           (if c = ''!setpassword'' then handleSetPassword (Reply tok) g a s
            else if c = ''!setpasswordtimeout'' then handleSetPasswordTimeout (Reply tok) g a s
            else if c = ''!addblacklist'' then handleAddBlacklistWords (Reply tok) g a s
            else handleRemoveBlacklistWords (Reply tok) g a s)"
    and "handleMessage_push env g (TextMessage raw m) u tok s =
           (if c = ''!setpassword'' then handleSetPassword (Push u) g a s
            else if c = ''!setpasswordtimeout'' then handleSetPasswordTimeout (Push u) g a s
            else if c = ''!addblacklist'' then handleAddBlacklistWords (Push u) g a s
            else handleRemoveBlacklistWords (Push u) g a s)"
  using assms
  by (auto simp: handleMessage_def handleMessage_push_def Let_def startsWith_def)

theorem double_space_gives_empty_argument_counterexample:
  "tl (split (trim ''!addblacklist  Spam'')) = ['''', ''Spam'']
   \<and> out (handleEvent platform_ok (group_text ''A'' ''!addblacklist  Spam'') moderated)
       = [ReplyMessage ''token'' ''Added 2 word(s) to blacklist.'']
   \<and> map_option blacklist_words
        (db (handleEvent platform_ok (group_text ''A'' ''!addblacklist  Spam'') moderated) ''G'')
       = Some ['''', ''spam'']"
proof -
  have p: "toLowerCase (hd (split (trim ''!addblacklist  Spam''))) = ''!addblacklist''"
    "tl (split (trim ''!addblacklist  Spam'')) = ['''', ''Spam'']"
    "toLowerCase ''Spam'' = ''spam''" "toLowerCase [] = []"
    by (simp_all add: string_eval)
  have e: "handleEvent platform_ok (group_text ''A'' ''!addblacklist  Spam'') moderated
           = handleAddBlacklistWords (Reply ''token'') ''G'' ['''', ''Spam''] moderated"
    using argument_command_dispatch(1)[OF moderated_row(1) _ _ p(1)[symmetric] p(2)[symmetric],
        of "''A''" platform_ok None "''token''"]
    by (simp add: handleEvent_def group_text_def)
  show ?thesis
    unfolding e
    using moderated_row addBlacklistWords_db[OF moderated_row(1), of "['''', ''Spam'']"] p
    by (simp add: handleAddBlacklistWords_def replyMessage_def emit_def addBlacklistWords_def
          new_Set_def set_add_def show_nat_small)
qed

text \<open>
  C5, as amended. The dispatcher trims the text and cuts it at every single space character. The
  command is the first piece in lower case; the handler of a command with arguments receives the
  remaining pieces, in order. The pieces contain no space and, joined again by single spaces, give
  back the trimmed text, so there is one argument for each space of that text: a run of
  \<open>k + 1\<close> spaces between two tokens yields \<open>k\<close> empty arguments.
\<close>

theorem dispatcher_cuts_at_single_spaces:
  assumes "(hm = handleMessage \<and> ch = Reply tok) \<or> (hm = handleMessage_push \<and> ch = Push u)"
    and "db s g = Some r" and "u \<in> set (admins r)" and "u \<notin> set (blacklist_users r)"
    and "c = toLowerCase (hd (split (trim raw)))" and "a = tl (split (trim raw))"
    and "c \<in> {''!setpassword'', ''!setpasswordtimeout'', ''!addblacklist'', ''!removeblacklist''}"
    and "CHR '' '' \<notin> set tok0" and "CHR '' '' \<notin> set w"
  shows "hm env g (TextMessage raw m) u tok s =
           (if c = ''!setpassword'' then handleSetPassword ch g a s
            else if c = ''!setpasswordtimeout'' then handleSetPasswordTimeout ch g a s
            else if c = ''!addblacklist'' then handleAddBlacklistWords ch g a s
            else handleRemoveBlacklistWords ch g a s)
       \<and> concat (map (\<lambda>p. p @ '' '') (split (trim raw))) = trim raw @ '' ''
       \<and> (\<forall>p \<in> set (split (trim raw)). CHR '' '' \<notin> set p)
       \<and> length a = count_list (trim raw) (CHR '' '')
       \<and> split (tok0 @ replicate (Suc k) (CHR '' '') @ w) = tok0 # replicate k [] @ [w]"
proof -
  have d: "hm env g (TextMessage raw m) u tok s =
           (if c = ''!setpassword'' then handleSetPassword ch g a s
            else if c = ''!setpasswordtimeout'' then handleSetPasswordTimeout ch g a s
            else if c = ''!addblacklist'' then handleAddBlacklistWords ch g a s
            else handleRemoveBlacklistWords ch g a s)"
    using assms(1) argument_command_dispatch[OF assms(2-7), of env m tok] by auto
  have l: "length a = count_list (trim raw) (CHR '' '')"
    using length_split[of "trim raw"] by (simp add: assms(6))
  show ?thesis
    using d l split_roundtrip[of "trim raw"] split_pieces[of _ "trim raw"]
      split_run_of_spaces[OF assms(8,9), of k]
    by blast
qed

theorem dispatcher_cuts_at_single_spaces_witness:
  "db moderated ''G'' = Some \<lparr>admins = [''A'', ''Z''], password = None,
                       password_timeout_minutes = Some 2,
                       blacklist_words = [], blacklist_users = [''B'', ''Z'']\<rparr>
   \<and> ''A'' \<in> set [''A'', ''Z''] \<and> ''A'' \<notin> set [''B'', ''Z'']
   \<and> toLowerCase (hd (split (trim ''!AddBlacklist  Spam''))) = ''!addblacklist''
   \<and> tl (split (trim ''!AddBlacklist  Spam'')) = ['''', ''Spam'']
   \<and> CHR '' '' \<notin> set ''!AddBlacklist'' \<and> CHR '' '' \<notin> set ''Spam''
   \<and> handleMessage platform_ok ''G'' (TextMessage ''!AddBlacklist  Spam'' None) ''A'' ''token'' moderated
       = handleAddBlacklistWords (Reply ''token'') ''G'' ['''', ''Spam''] moderated
   \<and> length ['''', ''Spam''] = count_list ''!AddBlacklist  Spam'' (CHR '' '')
   \<and> split (''!AddBlacklist'' @ replicate (Suc 1) (CHR '' '') @ ''Spam'')
       = ''!AddBlacklist'' # replicate 1 [] @ [''Spam'']"
proof -
  have p: "toLowerCase (hd (split (trim ''!AddBlacklist  Spam''))) = ''!addblacklist''"
    "tl (split (trim ''!AddBlacklist  Spam'')) = ['''', ''Spam'']"
    "trim ''!AddBlacklist  Spam'' = ''!AddBlacklist  Spam''"
    "CHR '' '' \<notin> set ''!AddBlacklist''" "CHR '' '' \<notin> set ''Spam''"
    by (simp_all add: string_eval)
  have t: "handleMessage platform_ok ''G'' (TextMessage ''!AddBlacklist  Spam'' None) ''A'' ''token'' moderated =
           (if ''!addblacklist'' = ''!setpassword''
            then handleSetPassword (Reply ''token'') ''G'' ['''', ''Spam''] moderated
            else if ''!addblacklist'' = ''!setpasswordtimeout''
            then handleSetPasswordTimeout (Reply ''token'') ''G'' ['''', ''Spam''] moderated
            else if ''!addblacklist'' = ''!addblacklist''
            then handleAddBlacklistWords (Reply ''token'') ''G'' ['''', ''Spam''] moderated
            else handleRemoveBlacklistWords (Reply ''token'') ''G'' ['''', ''Spam''] moderated)
       \<and> concat (map (\<lambda>p. p @ '' '') (split (trim ''!AddBlacklist  Spam''))) = trim ''!AddBlacklist  Spam'' @ '' ''
       \<and> (\<forall>p \<in> set (split (trim ''!AddBlacklist  Spam'')). CHR '' '' \<notin> set p)
       \<and> length ['''', ''Spam''] = count_list (trim ''!AddBlacklist  Spam'') (CHR '' '')
       \<and> split (''!AddBlacklist'' @ replicate (Suc 1) (CHR '' '') @ ''Spam'')
           = ''!AddBlacklist'' # replicate 1 [] @ [''Spam'']"
    by (rule dispatcher_cuts_at_single_spaces[where hm = handleMessage and ch = "Reply ''token''"
            and r = "\<lparr>admins = [''A'', ''Z''], password = None, password_timeout_minutes = Some 2,
                        blacklist_words = [], blacklist_users = [''B'', ''Z'']\<rparr>"])
       (simp_all add: moderated_row string_eval)
  show ?thesis
    using t p moderated_row(1) by simp
qed

lemma send_fields [simp]:
  "db (replyMessage tok msg s) = db s"
  "pendingVerifications (replyMessage tok msg s) = pendingVerifications s"
  "timers (replyMessage tok msg s) = timers s"
  "db (pushMessage u msg s) = db s"
  "pendingVerifications (pushMessage u msg s) = pendingVerifications s"
  "timers (pushMessage u msg s) = timers s"
  by (simp_all add: replyMessage_def pushMessage_def emit_def)

lemma after_double_space:
  "db (handleEvent platform_ok (group_text ''A'' ''!addblacklist  Spam'') moderated) ''G''
     = Some \<lparr>admins = [''A'', ''Z''], password = None, password_timeout_minutes = Some 2,
              blacklist_words = ['''', ''spam''], blacklist_users = [''B'', ''Z'']\<rparr>"
proof -
  have p: "toLowerCase (hd (split (trim ''!addblacklist  Spam''))) = ''!addblacklist''"
    "tl (split (trim ''!addblacklist  Spam'')) = ['''', ''Spam'']"
    "toLowerCase ''Spam'' = ''spam''" "toLowerCase [] = []"
    by (simp_all add: string_eval)
  have e: "handleEvent platform_ok (group_text ''A'' ''!addblacklist  Spam'') moderated
           = handleAddBlacklistWords (Reply ''token'') ''G'' ['''', ''Spam''] moderated"
    using argument_command_dispatch(1)[OF moderated_row(1) _ _ p(1)[symmetric] p(2)[symmetric],
        of "''A''" platform_ok None "''token''"]
    by (simp add: handleEvent_def group_text_def)
  show ?thesis
    unfolding e
    using addBlacklistWords_db[OF moderated_row(1), of "['''', ''Spam'']"] p
    by (simp add: handleAddBlacklistWords_def new_Set_def set_add_def)
qed

lemma after_single_space:
  "db (handleEvent platform_ok (group_text ''A'' ''!addblacklist Spam'') moderated) ''G''
     = Some \<lparr>admins = [''A'', ''Z''], password = None, password_timeout_minutes = Some 2,
              blacklist_words = [''spam''], blacklist_users = [''B'', ''Z'']\<rparr>"
proof -
  have p: "toLowerCase (hd (split (trim ''!addblacklist Spam''))) = ''!addblacklist''"
    "tl (split (trim ''!addblacklist Spam'')) = [''Spam'']"
    "toLowerCase ''Spam'' = ''spam''"
    by (simp_all add: string_eval)
  have e: "handleEvent platform_ok (group_text ''A'' ''!addblacklist Spam'') moderated
           = handleAddBlacklistWords (Reply ''token'') ''G'' [''Spam''] moderated"
    using argument_command_dispatch(1)[OF moderated_row(1) _ _ p(1)[symmetric] p(2)[symmetric],
        of "''A''" platform_ok None "''token''"]
    by (simp add: handleEvent_def group_text_def)
  show ?thesis
    unfolding e
    using addBlacklistWords_db[OF moderated_row(1), of "[''Spam'']"] p
    by (simp add: handleAddBlacklistWords_def new_Set_def set_add_def)
qed

lemma spam_text:
  "trim ''this is SPAM today'' = ''this is SPAM today''"
  "toLowerCase ''this is SPAM today'' = ''this is spam today''"
  "\<not> startsWith (toLowerCase (hd (split (trim ''this is SPAM today'')))) ''!''"
  "sublist ''spam'' ''this is spam today''"
  by (simp_all add: string_eval sublist_code(3))

theorem empty_word_masks_blacklist_counterexample:
  "map_option blacklist_words
     (db (handleEvent platform_ok (group_text ''A'' ''!addblacklist  Spam'') moderated) ''G'')
     = Some ['''', ''spam'']
   \<and> sublist (toLowerCase ''Spam'') (toLowerCase ''this is SPAM today'')
   \<and> handleEvent platform_ok (group_text ''C'' ''this is SPAM today'')
         (handleEvent platform_ok (group_text ''A'' ''!addblacklist  Spam'') moderated)
       = handleEvent platform_ok (group_text ''A'' ''!addblacklist  Spam'') moderated
   \<and> out (handleEvent platform_ok (group_text ''B'' ''this is SPAM today'')
              (handleEvent platform_ok (group_text ''A'' ''!addblacklist Spam'') moderated))
       = out (handleEvent platform_ok (group_text ''A'' ''!addblacklist Spam'') moderated)
         @ [ConsoleLog ''Kicking user B. Reason: User is on the blacklist.'',
            KickGroupMember ''G'' ''B'']"
proof -
  have a: "handleEvent platform_ok (group_text ''C'' ''this is SPAM today'')
         (handleEvent platform_ok (group_text ''A'' ''!addblacklist  Spam'') moderated)
       = handleEvent platform_ok (group_text ''A'' ''!addblacklist  Spam'') moderated"
    using plain_text_moderated(1)[OF after_double_space _ _ spam_text(3),
        of "''C''" platform_ok None "''token''"]
    by (simp add: handleEvent_def group_text_def spam_text)
  have b: "out (handleEvent platform_ok (group_text ''B'' ''this is SPAM today'')
              (handleEvent platform_ok (group_text ''A'' ''!addblacklist Spam'') moderated))
       = out (handleEvent platform_ok (group_text ''A'' ''!addblacklist Spam'') moderated)
         @ [ConsoleLog ''Kicking user B. Reason: User is on the blacklist.'',
            KickGroupMember ''G'' ''B'']"
    using blacklisted_sender_kicked[OF after_single_space,
        of "''B''" platform_ok "''this is SPAM today''" None "''token''"]
    by (simp add: handleEvent_def group_text_def kickUser_out platform_ok_def)
  have c: "toLowerCase ''Spam'' = ''spam''" by (simp add: string_eval)
  show ?thesis
    using a b by (simp add: after_double_space spam_text c)
qed

text \<open>
  C7, as amended. Every word given to \<open>!addblacklist\<close> is on the stored list in lower case
  afterwards. While the lower-case word is on the list, a text that is not a command, from a sender
  who is neither an admin nor on the user blacklist, and whose trimmed text in lower case contains the
  word, triggers a kick whose reason names the first word of the stored list that the text contains,
  provided that this first word is not the empty string.
\<close>

theorem blacklisted_word_triggers_kick:
  "(db s0 g = Some r0 \<and> W \<in> set args \<longrightarrow>
      (\<exists>r'. db (handleAddBlacklistWords ch g args s0) g = Some r'
            \<and> toLowerCase W \<in> set (blacklist_words r')))
   \<and> (db s g = Some r \<and> u \<notin> set (admins r) \<and> u \<notin> set (blacklist_users r)
        \<and> \<not> startsWith (toLowerCase (hd (split (trim raw)))) ''!''
        \<and> toLowerCase W \<in> set (blacklist_words r)
        \<and> sublist (toLowerCase W) (toLowerCase (trim raw))
        \<and> find (\<lambda>w. sublist w (toLowerCase (trim raw))) (blacklist_words r) \<noteq> Some []
      \<longrightarrow> (\<exists>w. find (\<lambda>w. sublist w (toLowerCase (trim raw))) (blacklist_words r) = Some w
                \<and> w \<in> set (blacklist_words r) \<and> w \<noteq> [] \<and> sublist w (toLowerCase (trim raw))
                \<and> handleMessage env g (TextMessage raw m) u tok s
                    = kickUser env g u (''Used blacklisted word: '' @ [CHR 0x27] @ w @ [CHR 0x27]) s
                \<and> handleMessage_push env g (TextMessage raw m) u tok s
                    = kickUser env g u (''Used blacklisted word: '' @ [CHR 0x27] @ w @ [CHR 0x27]) s
                \<and> KickGroupMember g u \<in> set (out (handleMessage env g (TextMessage raw m) u tok s))))"
proof (intro conjI impI)
  assume "db s0 g = Some r0 \<and> W \<in> set args"
  then show "\<exists>r'. db (handleAddBlacklistWords ch g args s0) g = Some r'
            \<and> toLowerCase W \<in> set (blacklist_words r')"
    using handleAddBlacklistWords_stores[of s0 g r0 W args ch] by simp
next
  let ?P = "\<lambda>w. sublist w (toLowerCase (trim raw))"
  assume h: "db s g = Some r \<and> u \<notin> set (admins r) \<and> u \<notin> set (blacklist_users r)
        \<and> \<not> startsWith (toLowerCase (hd (split (trim raw)))) ''!''
        \<and> toLowerCase W \<in> set (blacklist_words r)
        \<and> sublist (toLowerCase W) (toLowerCase (trim raw))
        \<and> find ?P (blacklist_words r) \<noteq> Some []"
  then obtain w where w: "find ?P (blacklist_words r) = Some w" "w \<in> set (blacklist_words r)" "?P w"
    using find_first_match[of "toLowerCase W" "blacklist_words r" ?P] by blast
  with h have ne: "w \<noteq> []" by auto
  have hm: "handleMessage env g (TextMessage raw m) u tok s
              = kickUser env g u (''Used blacklisted word: '' @ [CHR 0x27] @ w @ [CHR 0x27]) s"
    "handleMessage_push env g (TextMessage raw m) u tok s
              = kickUser env g u (''Used blacklisted word: '' @ [CHR 0x27] @ w @ [CHR 0x27]) s"
    using h plain_text_moderated[of s g r u raw env m tok] w(1) ne by simp_all
  have "KickGroupMember g u \<in> set (out (handleMessage env g (TextMessage raw m) u tok s))"
    unfolding hm(1) by (simp add: kickUser_out)
  with w ne hm
  show "\<exists>w. find ?P (blacklist_words r) = Some w
                \<and> w \<in> set (blacklist_words r) \<and> w \<noteq> [] \<and> sublist w (toLowerCase (trim raw))
                \<and> handleMessage env g (TextMessage raw m) u tok s
                    = kickUser env g u (''Used blacklisted word: '' @ [CHR 0x27] @ w @ [CHR 0x27]) s
                \<and> handleMessage_push env g (TextMessage raw m) u tok s
                    = kickUser env g u (''Used blacklisted word: '' @ [CHR 0x27] @ w @ [CHR 0x27]) s
                \<and> KickGroupMember g u \<in> set (out (handleMessage env g (TextMessage raw m) u tok s))"
    by blast
qed

theorem blacklisted_word_triggers_kick_witness:
  "db moderated ''G'' = Some \<lparr>admins = [''A'', ''Z''], password = None, password_timeout_minutes = Some 2,
                              blacklist_words = [], blacklist_users = [''B'', ''Z'']\<rparr>
   \<and> ''Spam'' \<in> set [''Spam'']
   \<and> (\<exists>r'. db (handleAddBlacklistWords (Reply ''token'') ''G'' [''Spam''] moderated) ''G'' = Some r'
            \<and> toLowerCase ''Spam'' \<in> set (blacklist_words r'))
   \<and> db (handleEvent platform_ok (group_text ''A'' ''!addblacklist Spam'') moderated) ''G''
       = Some \<lparr>admins = [''A'', ''Z''], password = None, password_timeout_minutes = Some 2,
                blacklist_words = [''spam''], blacklist_users = [''B'', ''Z'']\<rparr>
   \<and> ''C'' \<notin> set [''A'', ''Z''] \<and> ''C'' \<notin> set [''B'', ''Z'']
   \<and> \<not> startsWith (toLowerCase (hd (split (trim ''this is SPAM today'')))) ''!''
   \<and> toLowerCase ''Spam'' \<in> set [''spam'']
   \<and> sublist (toLowerCase ''Spam'') (toLowerCase (trim ''this is SPAM today''))
   \<and> find (\<lambda>w. sublist w (toLowerCase (trim ''this is SPAM today''))) [''spam''] = Some ''spam''
   \<and> handleMessage platform_ok ''G'' (TextMessage ''this is SPAM today'' None) ''C'' ''token''
         (handleEvent platform_ok (group_text ''A'' ''!addblacklist Spam'') moderated)
       = kickUser platform_ok ''G'' ''C'' (''Used blacklisted word: '' @ [CHR 0x27] @ ''spam'' @ [CHR 0x27])
           (handleEvent platform_ok (group_text ''A'' ''!addblacklist Spam'') moderated)"
proof -
  let ?s = "handleEvent platform_ok (group_text ''A'' ''!addblacklist Spam'') moderated"
  let ?r = "\<lparr>admins = [''A'', ''Z''], password = None, password_timeout_minutes = Some 2,
             blacklist_words = [''spam''], blacklist_users = [''B'', ''Z'']\<rparr>"
  have c: "toLowerCase ''Spam'' = ''spam''" "\<not> startsWith (toLowerCase ''this'') ''!''"
    by (simp_all add: string_eval)
  have f: "find (\<lambda>w. sublist w (toLowerCase (trim ''this is SPAM today''))) [''spam''] = Some ''spam''"
    by (simp add: spam_text)
  note t = blacklisted_word_triggers_kick[of moderated "''G''"
      "\<lparr>admins = [''A'', ''Z''], password = None, password_timeout_minutes = Some 2,
        blacklist_words = [], blacklist_users = [''B'', ''Z'']\<rparr>" "''Spam''" "[''Spam'']" "Reply ''token''"
      ?s ?r "''C''" "''this is SPAM today''" platform_ok None "''token''"]
  have a: "\<exists>r'. db (handleAddBlacklistWords (Reply ''token'') ''G'' [''Spam''] moderated) ''G'' = Some r'
            \<and> toLowerCase ''Spam'' \<in> set (blacklist_words r')"
    using t moderated_row(1) by simp
  have b: "\<exists>w. find (\<lambda>w. sublist w (toLowerCase (trim ''this is SPAM today''))) (blacklist_words ?r) = Some w
              \<and> handleMessage platform_ok ''G'' (TextMessage ''this is SPAM today'' None) ''C'' ''token'' ?s
                  = kickUser platform_ok ''G'' ''C'' (''Used blacklisted word: '' @ [CHR 0x27] @ w @ [CHR 0x27]) ?s"
    using t after_single_space f by (simp add: spam_text c)
  then have b': "handleMessage platform_ok ''G'' (TextMessage ''this is SPAM today'' None) ''C'' ''token'' ?s
                  = kickUser platform_ok ''G'' ''C'' (''Used blacklisted word: '' @ [CHR 0x27] @ ''spam'' @ [CHR 0x27]) ?s"
    using f by auto
  show ?thesis
    using a b' f moderated_row(1) after_single_space by (simp add: spam_text c)
qed

lemma inv_same_db: "db s' = db s \<Longrightarrow> admins_before_blacklist s' = admins_before_blacklist s"
  by (simp add: admins_before_blacklist_def)

lemma inv_row: "admins_before_blacklist s \<Longrightarrow> db s g = Some r \<Longrightarrow> admins r = [] \<Longrightarrow> blacklist_users r = []"
  by (simp add: admins_before_blacklist_def)

lemma inv_db_upd:
  assumes "admins_before_blacklist s" and "admins r' = [] \<Longrightarrow> blacklist_users r' = []"
  shows "admins_before_blacklist (s\<lparr>db := (db s)(g \<mapsto> r')\<rparr>)"
  using assms by (simp add: admins_before_blacklist_def)

lemma inv_getGroupSettings:
  assumes "admins_before_blacklist s" and "getGroupSettings g s = (st, s1)"
  shows "admins_before_blacklist s1" and "admins st = [] \<Longrightarrow> blacklist_users st = []"
proof -
  show b: "admins st = [] \<Longrightarrow> blacklist_users st = []"
  proof (cases "db s g")
    case None
    with assms(2) show "blacklist_users st = []"
      by (auto simp: getGroupSettings_def default_row_def)
  next
    case (Some r)
    assume "admins st = []"
    with Some assms show "blacklist_users st = []"
      using inv_row[of s g r] by simp
  qed
  show "admins_before_blacklist s1"
  proof (cases "db s g")
    case None
    with assms(2) have "s1 = (emit (ConsoleLog (''No settings found for group '' @ g @ ''. Creating new entry.'')) s)
             \<lparr>db := (db s)(g \<mapsto> st)\<rparr>" and "admins st = []" and "blacklist_users st = []"
      by (auto simp: getGroupSettings_def default_row_def)
    then show ?thesis
      using assms(1) by (simp add: admins_before_blacklist_def emit_def)
  next
    case (Some r)
    with assms show ?thesis by simp
  qed
qed

lemma inv_emit [simp]: "admins_before_blacklist (emit e s) = admins_before_blacklist s"
  by (simp add: emit_def admins_before_blacklist_def)

lemma inv_respond [simp]: "admins_before_blacklist (respond ch msg s) = admins_before_blacklist s"
  by (simp add: admins_before_blacklist_def)

lemma inv_send [simp]:
  "admins_before_blacklist (replyMessage tok msg s) = admins_before_blacklist s"
  "admins_before_blacklist (pushMessage u msg s) = admins_before_blacklist s"
  by (simp_all add: admins_before_blacklist_def)

lemma inv_kickUser [simp]:
  "admins_before_blacklist (kickUser env g u reason s) = admins_before_blacklist s"
  by (simp add: admins_before_blacklist_def)

lemma set_add_not_Nil [simp]: "set_add xs x \<noteq> []"
  by (auto simp: set_add_def)

lemma inv_addAdmin:
  assumes "admins_before_blacklist s" and "db s g = Some r"
  shows "admins_before_blacklist (addAdmin g x s)"
  using assms by (auto simp: addAdmin_def admins_before_blacklist_def)

lemma inv_handleSetAdmin:
  assumes "admins_before_blacklist s"
  shows "admins_before_blacklist (handleSetAdmin g u tok m s)"
    and "admins_before_blacklist (handleSetAdmin_push g u tok m s)"
proof -
  obtain st s1 where gs: "getGroupSettings g s = (st, s1)" by (cases "getGroupSettings g s")
  note i = inv_getGroupSettings(1)[OF assms gs]
  have d: "db s1 g = Some st" using getGroupSettings_cases[OF gs] by simp
  note a = inv_addAdmin[OF i d]
  show "admins_before_blacklist (handleSetAdmin g u tok m s)"
    using i d a by (simp add: handleSetAdmin_def gs split: option.splits)
  show "admins_before_blacklist (handleSetAdmin_push g u tok m s)"
    using i d a by (simp add: handleSetAdmin_push_def gs split: option.splits)
qed

lemma inv_handleSetPassword:
  assumes "admins_before_blacklist s" and "db s g = Some r"
  shows "admins_before_blacklist (handleSetPassword ch g args s)"
  using assms inv_row[OF assms]
  by (auto simp: handleSetPassword_def setPassword_def Let_def admins_before_blacklist_def)

lemma inv_handleSetPasswordTimeout:
  assumes "admins_before_blacklist s" and "db s g = Some r"
  shows "admins_before_blacklist (handleSetPasswordTimeout ch g args s)"
  using assms inv_row[OF assms]
  by (auto simp: handleSetPasswordTimeout_def setPasswordTimeout_def admins_before_blacklist_def split: option.splits)

lemma inv_handleAddBlacklistWords:
  assumes "admins_before_blacklist s" and "db s g = Some r"
  shows "admins_before_blacklist (handleAddBlacklistWords ch g args s)"
  using assms inv_row[OF assms]
  by (auto simp: handleAddBlacklistWords_def addBlacklistWords_def admins_before_blacklist_def)

lemma inv_handleRemoveBlacklistWords:
  assumes "admins_before_blacklist s" and "db s g = Some r"
  shows "admins_before_blacklist (handleRemoveBlacklistWords ch g args s)"
  using assms inv_row[OF assms]
  by (auto simp: handleRemoveBlacklistWords_def removeBlacklistWords_def admins_before_blacklist_def)

lemma inv_handleBlacklistUser:
  assumes "admins_before_blacklist s" and "db s g = Some r" and "admins r \<noteq> []"
  shows "admins_before_blacklist (handleBlacklistUser env ch g m s)"
  using assms
  by (auto simp: handleBlacklistUser_def addUserToBlacklist_def Let_def admins_before_blacklist_def emit_def split: option.splits)

lemma inv_handleUnblacklistUser:
  assumes "admins_before_blacklist s" and "db s g = Some r" and "admins r \<noteq> []"
  shows "admins_before_blacklist (handleUnblacklistUser env ch g m s)"
  using assms
  by (auto simp: handleUnblacklistUser_def removeUserFromBlacklist_def Let_def admins_before_blacklist_def split: option.splits)

lemma inv_readers:
  assumes "admins_before_blacklist s" and "db s g = Some r"
  shows "admins_before_blacklist (handleStatusCommand ch g s)"
    and "admins_before_blacklist (handleShowBlacklistWords ch g s)"
    and "admins_before_blacklist (handleShowBlacklistUsers env ch g s)"
    and "admins_before_blacklist (handleHelpCommand ch s)"
    and "admins_before_blacklist (checkMessageForBlacklist env g u msg s)"
  using assms
  by (simp_all add: handleStatusCommand_def handleShowBlacklistWords_def handleShowBlacklistUsers_def
        handleHelpCommand_def checkMessageForBlacklist_def Let_def split: option.splits)

lemma inv_isUserBlacklisted:
  assumes "admins_before_blacklist s" and "isUserBlacklisted g u s = (b, s1)"
  shows "admins_before_blacklist s1" and "\<exists>r. db s1 g = Some r \<and> (b \<longleftrightarrow> u \<in> set (blacklist_users r))"
proof -
  obtain st where gs: "getGroupSettings g s = (st, s1)" and b: "b \<longleftrightarrow> u \<in> set (blacklist_users st)"
    using assms(2) by (auto simp: isUserBlacklisted_def split: prod.splits)
  show "admins_before_blacklist s1" using inv_getGroupSettings(1)[OF assms(1) gs] .
  show "\<exists>r. db s1 g = Some r \<and> (b \<longleftrightarrow> u \<in> set (blacklist_users r))"
    using getGroupSettings_cases[OF gs] b by simp
qed

lemma inv_admin_branch:
  assumes "admins_before_blacklist s" and "db s g = Some r" and "u \<in> set (admins r)"
  shows "admins_before_blacklist
           (if c = ''!setpassword'' then handleSetPassword ch g a s
            else if c = ''!setpasswordtimeout'' then handleSetPasswordTimeout ch g a s
            else if c = ''!addblacklist'' then handleAddBlacklistWords ch g a s
            else if c = ''!removeblacklist'' then handleRemoveBlacklistWords ch g a s
            else if c = ''!blacklistuser'' then handleBlacklistUser env ch g m s
            else if c = ''!unblacklistuser'' then handleUnblacklistUser env ch g m s
            else if c = ''!status'' then handleStatusCommand ch g s
            else if c = ''!showblacklistwords'' then handleShowBlacklistWords ch g s
            else if c = ''!showblacklistusers'' then handleShowBlacklistUsers env ch g s
            else if c = ''!help'' then handleHelpCommand ch s
            else respond ch msg s)"
proof -
  from assms(3) have ne: "admins r \<noteq> []" by auto
  note h = inv_handleSetPassword[OF assms(1,2)] inv_handleSetPasswordTimeout[OF assms(1,2)]
    inv_handleAddBlacklistWords[OF assms(1,2)] inv_handleRemoveBlacklistWords[OF assms(1,2)]
    inv_handleBlacklistUser[OF assms(1,2) ne] inv_handleUnblacklistUser[OF assms(1,2) ne]
    inv_readers(1-4)[OF assms(1,2)]
  show ?thesis
    using h assms(1) by (simp only: inv_respond if_split) blast
qed

lemma handleMessage_text:
  assumes "isUserBlacklisted g u s = (b, s1)" and "db s1 g = Some r"
    and "c = toLowerCase (hd (split (trim raw)))" and "a = tl (split (trim raw))"
  shows "handleMessage env g (TextMessage raw m) u tok s =
     (if b then kickUser env g u ''User is on the blacklist.'' s1
      else if startsWith c ''!''
      then (if c = ''!setadmin'' then handleSetAdmin g u tok m s1
            else if u \<notin> set (admins r) then s1
            else (if c = ''!setpassword'' then handleSetPassword (Reply tok) g a s1
                  else if c = ''!setpasswordtimeout'' then handleSetPasswordTimeout (Reply tok) g a s1
                  else if c = ''!addblacklist'' then handleAddBlacklistWords (Reply tok) g a s1
                  else if c = ''!removeblacklist'' then handleRemoveBlacklistWords (Reply tok) g a s1
                  else if c = ''!blacklistuser'' then handleBlacklistUser env (Reply tok) g m s1
                  else if c = ''!unblacklistuser'' then handleUnblacklistUser env (Reply tok) g m s1
                  else if c = ''!status'' then handleStatusCommand (Reply tok) g s1
                  else if c = ''!showblacklistwords'' then handleShowBlacklistWords (Reply tok) g s1
                  else if c = ''!showblacklistusers'' then handleShowBlacklistUsers env (Reply tok) g s1
                  else if c = ''!help'' then handleHelpCommand (Reply tok) s1
                  else respond (Reply tok)
                         (''Unknown command: '' @ c @ ''. Use !help to see all available commands.'') s1))
      else checkMessageForBlacklist env g u (trim raw) s1)"
  unfolding handleMessage_def Let_def assms(3,4) message.case assms(1) prod.case
    isAdmin_Some[OF assms(2)] respond.simps
  by (rule refl)

lemma handleMessage_push_text:
  assumes "isUserBlacklisted g u s = (b, s1)" and "db s1 g = Some r"
    and "c = toLowerCase (hd (split (trim raw)))" and "a = tl (split (trim raw))"
  shows "handleMessage_push env g (TextMessage raw m) u tok s =
     (if b then kickUser env g u ''User is on the blacklist.'' s1
      else if startsWith c ''!''
      then (if c = ''!setadmin'' then handleSetAdmin_push g u tok m s1
            else if u \<notin> set (admins r) then s1
            else (if c = ''!setpassword'' then handleSetPassword (Push u) g a s1
                  else if c = ''!setpasswordtimeout'' then handleSetPasswordTimeout (Push u) g a s1
                  else if c = ''!addblacklist'' then handleAddBlacklistWords (Push u) g a s1
                  else if c = ''!removeblacklist'' then handleRemoveBlacklistWords (Push u) g a s1
                  else if c = ''!blacklistuser'' then handleBlacklistUser env (Push u) g m s1
                  else if c = ''!unblacklistuser'' then handleUnblacklistUser env (Push u) g m s1
                  else if c = ''!status'' then handleStatusCommand (Push u) g s1
                  else if c = ''!showblacklistwords'' then handleShowBlacklistWords (Push u) g s1
                  else if c = ''!showblacklistusers'' then handleShowBlacklistUsers env (Push u) g s1
                  else if c = ''!help'' then handleHelpCommand (Push u) s1
                  else respond (Push u)
                         (''Unknown command: '' @ c @ ''. Use !help to see all available commands.'') s1))
      else checkMessageForBlacklist env g u (trim raw) s1)"
  unfolding handleMessage_push_def Let_def assms(3,4) message.case assms(1) prod.case
    isAdmin_Some[OF assms(2)] respond.simps
  by (rule refl)

lemma inv_if: "(c \<Longrightarrow> admins_before_blacklist x) \<Longrightarrow> (\<not> c \<Longrightarrow> admins_before_blacklist y)
  \<Longrightarrow> admins_before_blacklist (if c then x else y)"
  by simp

lemma inv_dispatch:
  assumes "admins_before_blacklist s1" and "db s1 g = Some r" and "admins_before_blacklist sa"
    and "u \<in> set (admins r) \<Longrightarrow> admins_before_blacklist branch"
  shows "admins_before_blacklist
     (if b then kickUser env g u reason s1
      else if sw
      then (if isSetAdmin then sa
            else if u \<notin> set (admins r) then s1
            else branch)
      else checkMessageForBlacklist env g u t s1)"
proof (rule inv_if)
  show "admins_before_blacklist (kickUser env g u reason s1)" using assms(1) by simp
next
  show "admins_before_blacklist
     (if sw then (if isSetAdmin then sa else if u \<notin> set (admins r) then s1 else branch)
      else checkMessageForBlacklist env g u t s1)"
  proof (rule inv_if)
    show "admins_before_blacklist (if isSetAdmin then sa else if u \<notin> set (admins r) then s1 else branch)"
    proof (rule inv_if)
      show "admins_before_blacklist sa" by (rule assms(3))
    next
      show "admins_before_blacklist (if u \<notin> set (admins r) then s1 else branch)"
      proof (rule inv_if)
        show "admins_before_blacklist s1" by (rule assms(1))
      next
        assume "\<not> u \<notin> set (admins r)"
        then show "admins_before_blacklist branch" using assms(4) by simp
      qed
    qed
  next
    show "admins_before_blacklist (checkMessageForBlacklist env g u t s1)"
      by (rule inv_readers(5)[OF assms(1,2)])
  qed
qed

lemma inv_handleMessage:
  assumes "admins_before_blacklist s"
  shows "admins_before_blacklist (handleMessage env g msg u tok s)"
    and "admins_before_blacklist (handleMessage_push env g msg u tok s)"
proof -
  obtain b s1 where ib: "isUserBlacklisted g u s = (b, s1)" by (cases "isUserBlacklisted g u s")
  from inv_isUserBlacklisted[OF assms ib] obtain r where
    i1: "admins_before_blacklist s1" and d1: "db s1 g = Some r" by blast
  show "admins_before_blacklist (handleMessage env g msg u tok s)"
  proof (cases msg)
    case (OtherMessage ty)
    with assms show ?thesis by (simp add: handleMessage_def)
  next
    case (TextMessage raw m)
    show ?thesis
      unfolding TextMessage handleMessage_text[OF ib d1 refl refl]
      by (rule inv_dispatch[OF i1 d1 inv_handleSetAdmin(1)[OF i1]])
         (rule inv_admin_branch[OF i1 d1])
  qed
  show "admins_before_blacklist (handleMessage_push env g msg u tok s)"
  proof (cases msg)
    case (OtherMessage ty)
    with assms show ?thesis by (simp add: handleMessage_push_def)
  next
    case (TextMessage raw m)
    show ?thesis
      unfolding TextMessage handleMessage_push_text[OF ib d1 refl refl]
      by (rule inv_dispatch[OF i1 d1 inv_handleSetAdmin(2)[OF i1]])
         (rule inv_admin_branch[OF i1 d1])
  qed
qed

lemma inv_loop:
  assumes "admins_before_blacklist s" and "db s g = Some r"
  shows "admins_before_blacklist (handleMemberJoined_loop env g st members s)"
  using assms
proof (induction members arbitrary: s)
  case Nil
  then show ?case by simp
next
  case (Cons member members)
  have step: "admins_before_blacklist (handleMemberJoined_loop env g st members s')"
    if "db s' = db s" for s'
  proof (rule Cons.IH)
    show "admins_before_blacklist s'"
      using inv_same_db[OF that] Cons.prems(1) by blast
    show "db s' g = Some r"
      using that Cons.prems(2) by metis
  qed
  have k: "db (kickUser env g member ''A blacklisted user tried to join.'' s) = db s"
    by simp
  show ?case
  proof (cases "member \<in> set (blacklist_users r)")
    case True
    with Cons.prems(2) step[OF k] show ?thesis by simp
  next
    case False
    show ?thesis
    proof (cases "truthy (password st)")
      case True
      have "admins_before_blacklist (handleMemberJoined_loop env g st members (pushMessage member msg s'))"
        if "db s' = db s" for msg s'
        by (rule step) (simp add: that)
      with True False Cons.prems(2) show ?thesis
        by (simp add: Let_def)
    next
      case False
      with \<open>member \<notin> set (blacklist_users r)\<close> Cons.prems(2) step[OF refl] show ?thesis by simp
    qed
  qed
qed

lemma inv_handleMemberJoined:
  assumes "admins_before_blacklist s"
  shows "admins_before_blacklist (handleMemberJoined env g members s)"
proof -
  obtain st s1 where gs: "getGroupSettings g s = (st, s1)" by (cases "getGroupSettings g s")
  from getGroupSettings_cases[OF gs] have d: "db s1 g = Some st" by simp
  show ?thesis
    using inv_loop[OF inv_getGroupSettings(1)[OF assms gs] d]
    by (simp add: handleMemberJoined_def gs)
qed

lemma inv_handlePasswordAttempt:
  assumes "admins_before_blacklist s"
  shows "admins_before_blacklist (handlePasswordAttempt env u m tok s)"
proof (cases "pendingVerifications s u")
  case None
  with assms show ?thesis by (simp add: handlePasswordAttempt_def)
next
  case (Some v)
  obtain st s1 where gs: "getGroupSettings (groupId v) s = (st, s1)"
    by (cases "getGroupSettings (groupId v) s")
  from inv_getGroupSettings(1)[OF assms gs] have "admins_before_blacklist s1" .
  then show ?thesis
    by (simp add: handlePasswordAttempt_def Some gs Let_def admins_before_blacklist_def
          kickUser_out replyMessage_def emit_def)
qed

lemma inv_fireTimeout:
  assumes "admins_before_blacklist s"
  shows "admins_before_blacklist (fireTimeout env tid s)"
  using assms
  by (simp add: fireTimeout_def Let_def admins_before_blacklist_def kickUser_out emit_def
        split: option.splits)

lemma inv_handleEvent:
  assumes "admins_before_blacklist s"
  shows "admins_before_blacklist (handleEvent env e s)"
    and "admins_before_blacklist (handleEvent_push env e s)"
proof -
  have u: "admins_before_blacklist (s\<lparr>pendingVerifications := p\<rparr>)" for p
    using assms by (simp add: admins_before_blacklist_def)
  note h = assms u inv_handleMessage[OF assms] inv_handleMemberJoined[OF assms]
    inv_handlePasswordAttempt[OF assms]
  show "admins_before_blacklist (handleEvent env e s)"
    using h by (simp add: handleEvent_def split: event.splits source.splits)
  show "admins_before_blacklist (handleEvent_push env e s)"
    using h by (simp add: handleEvent_push_def split: event.splits source.splits)
qed

text \<open>
  In every state the process can reach, a group without admins has no blacklisted user: users are
  blacklisted by a command that only an admin can run, and admins are never removed. So the first
  \<open>!setadmin\<close> of a group reaches \<open>handleSetAdmin\<close> whoever sends it.
\<close>

lemma reachable_admins_before_blacklist:
  "reachable s \<Longrightarrow> admins_before_blacklist s"
proof (induction rule: reachable.induct)
  case start
  show ?case by (simp add: admins_before_blacklist_def fresh_def)
next
  case (event s env e)
  then show ?case by (simp add: inv_handleEvent(1))
next
  case (event_push s env e)
  then show ?case by (simp add: inv_handleEvent(2))
next
  case (timeout s env tid)
  then show ?case by (simp add: inv_fireTimeout)
qed

lemma reachable_first_setadmin:
  assumes "reachable s" and "admins (fst (getGroupSettings g s)) = []"
    and "toLowerCase (hd (split (trim raw))) = ''!setadmin''"
  shows "u \<notin> set (blacklist_users (fst (getGroupSettings g s)))"
    and "handleEvent env (Message (GroupSource g u) (TextMessage raw mention) tok) s
           = handleSetAdmin g u tok mention s"
    and "db (handleEvent env (Message (GroupSource g u) (TextMessage raw mention) tok) s)
           = (db s)(g \<mapsto> (fst (getGroupSettings g s))\<lparr>admins := [u]\<rparr>)"
proof -
  obtain st s1 where gs: "getGroupSettings g s = (st, s1)" by (cases "getGroupSettings g s")
  from inv_getGroupSettings(2)[OF reachable_admins_before_blacklist[OF assms(1)] gs] assms(2) gs
  show nb: "u \<notin> set (blacklist_users (fst (getGroupSettings g s)))" by simp
  show e: "handleEvent env (Message (GroupSource g u) (TextMessage raw mention) tok) s
           = handleSetAdmin g u tok mention s"
    by (rule setadmin_message(1)[OF nb assms(3)])
  from assms(2) gs have a: "admins st = []" by simp
  show "db (handleEvent env (Message (GroupSource g u) (TextMessage raw mention) tok) s)
           = (db s)(g \<mapsto> (fst (getGroupSettings g s))\<lparr>admins := [u]\<rparr>)"
    unfolding e first_setadmin(1)[OF gs a] by (simp add: gs)
qed

end
